theory Spec2Isabelle
  imports Main "HOL-Library.Sublist"
begin

section \<open>JavaScript values and strings\<close>

text \<open>
  The values the loader handles. Objects that the code never looks into are \<open>JObject\<close>
  with an identity; a \<open>URL\<close> instance is represented by its href; a class (custom-element
  constructor) by an identifier.
\<close>

datatype jsval =
    JUndefined
  | JNull
  | JBool bool
  | JNum int
  | JNaN
  | JStr string
  | JUrl string
  | JCtor nat
  | JObject nat

text \<open>\<open>!!v\<close>: the falsy values are undefined, null, false, 0, NaN and the empty string.\<close>

fun truthy :: "jsval \<Rightarrow> bool" where
  "truthy JUndefined = False"
| "truthy JNull = False"
| "truthy (JBool b) = b"
| "truthy (JNum n) = (n \<noteq> 0)"
| "truthy JNaN = False"
| "truthy (JStr s) = (s \<noteq> [])"
| "truthy (JUrl u) = True"
| "truthy (JCtor c) = True"
| "truthy (JObject i) = True"

text \<open>
  A string is a list of code units below 256, which are the code points of Latin-1.
  \<open>String.prototype.toLowerCase\<close> maps each capital letter of that range to the code
  point 32 above it: A to Z (65 to 90) and the letters from 192 to 222, of which 215 is the
  multiplication sign and no letter. It leaves every other code unit as it is.
\<close>

definition lowerChar :: "char \<Rightarrow> char" where
  "lowerChar c =
     (if ((65::nat) \<le> of_char c \<and> of_char c \<le> (90::nat))
         \<or> ((192::nat) \<le> of_char c \<and> of_char c \<le> (222::nat) \<and> of_char c \<noteq> (215::nat))
      then char_of (of_char c + (32::nat)) else c)"

definition toLowerCase :: "string \<Rightarrow> string" where
  "toLowerCase s = map lowerChar s"

text \<open>\<open>s.charCodeAt(i)\<close>: the code unit at \<open>i\<close>, or NaN (\<open>None\<close>) out of range.\<close>

definition charCodeAt :: "string \<Rightarrow> nat \<Rightarrow> nat option" where
  "charCodeAt s i = (if i < length s then Some (of_char (s ! i)) else None)"

text \<open>\<open>a <= b\<close> on numbers: false as soon as one side is NaN.\<close>

fun numLe :: "nat option \<Rightarrow> nat option \<Rightarrow> bool" where
  "numLe (Some a) (Some b) = (a \<le> b)"
| "numLe _ _ = False"

text \<open>\<open>s.indexOf(c)\<close> for a one-character search string: the first index, or -1.\<close>

fun indexOf :: "string \<Rightarrow> char \<Rightarrow> int" where
  "indexOf [] c = - 1"
| "indexOf (x # xs) c =
     (if x = c then 0
      else (let r = indexOf xs c in if r < 0 then - 1 else r + 1))"

section \<open>Errors and promises\<close>

datatype errkind = TypeError | SyntaxError | Error | Thrown

text \<open>An error object: its class, its message and its \<open>cause\<close> option.\<close>

datatype jserror = JsError errkind string "jserror option"

fun kind :: "jserror \<Rightarrow> errkind" where
  "kind (JsError k m c) = k"

fun message :: "jserror \<Rightarrow> string" where
  "message (JsError k m c) = m"

fun cause :: "jserror \<Rightarrow> jserror option" where
  "cause (JsError k m c) = c"

text \<open>The messages of an error and of its chain of causes, outermost first.\<close>

fun messages :: "jserror \<Rightarrow> string list" where
  "messages (JsError k m None) = [m]"
| "messages (JsError k m (Some e)) = m # messages e"

text \<open>An error carries a text when one of the messages of its chain contains it.\<close>

definition carries :: "jserror \<Rightarrow> string \<Rightarrow> bool" where
  "carries e s = list_ex (\<lambda>m. sublist s m) (messages e)"

text \<open>The state a promise ends in.\<close>

datatype 'a settled = Fulfilled 'a | Rejected jserror | Pending

section \<open>Elements and resolved names\<close>

text \<open>
  An element: its \<open>tagName\<close>, the value of \<open>getAttribute('is')\<close> (\<open>None\<close> for null)
  and its \<open>children\<close> (child elements only, as the HTMLCollection has them).
\<close>

datatype element = Element (tagNameOf: string) (getAttributeIs: "string option") (children: "element list")

text \<open>
  What \<open>observe\<close> is given as its target, a Node: an element that has no
  \<open>Symbol.iterator\<close>; an element that has one (a form, a select), with the elements that
  iterating it yields; or a node that is not an element (a document, a document fragment,
  a shadow root, a text node), by its \<open>nodeType\<close>.
\<close>

datatype observeTarget =
    PlainElement element
  | IterableElement element "element list"
  | OtherNode nat

record elementNames =
  elementName :: string
  tagName :: string
  isAttr :: "string option"

definition resolveNames :: "element \<Rightarrow> elementNames" where
  "resolveNames element =
     (let tagName = toLowerCase (tagNameOf element);
          isAttr = getAttributeIs element;
          names = \<lparr> elementName = tagName, tagName = tagName, isAttr = None \<rparr>
      in case isAttr of
           Some v \<Rightarrow> (let isAttr = toLowerCase v
                      in names \<lparr> elementName := isAttr, isAttr := Some isAttr \<rparr>)
         | None \<Rightarrow> names)"

section \<open>The name validator\<close>

definition INVALID_CUSTOM_ELEMENT_NAMES :: "string list" where
  "INVALID_CUSTOM_ELEMENT_NAMES =
     [''annotation-xml'', ''color-profile'', ''font-face'', ''font-face-src'',
      ''font-face-uri'', ''font-face-format'', ''font-face-name'', ''missing-glyph'']"

definition isCustomElementName :: "jsval \<Rightarrow> bool" where
  "isCustomElementName name =
     (case name of
        JStr s \<Rightarrow>
          (let firstChar = charCodeAt s 0;
               A_CHAR = Some (97::nat);
               Z_CHAR = Some (122::nat)
           in numLe A_CHAR firstChar \<and> numLe firstChar Z_CHAR
              \<and> indexOf s (CHR ''-'') > 0
              \<and> s \<notin> set INVALID_CUSTOM_ELEMENT_NAMES)
      | _ \<Rightarrow> False)"

section \<open>The instance and the platform\<close>

text \<open>What calling the configured loader on a URL leads to.\<close>

datatype loaderResult = Resolves jsval | Rejects jserror | Throws jserror | Never

text \<open>
  The private fields of an instance: \<open>#filter\<close> (\<open>None\<close> for null), \<open>#urlResolver\<close>
  (\<open>Inl\<close> when the call throws) and \<open>#loader\<close> (called with the URL's href).
\<close>

record lazyLoader =
  filter' :: "(jsval \<Rightarrow> jsval) option"
  urlResolver :: "string \<Rightarrow> jserror + jsval"
  loader :: "string \<Rightarrow> loaderResult"

text \<open>
  The globals of the host that the code calls: the registry \<open>customElements\<close> (a name is
  bound to its constructor), \<open>new URL(s, window.location)\<close> (the href, or the error thrown),
  \<open>customElements.define(name, ctor, options)\<close> (the error it throws, if any, with
  \<open>options.extends\<close> as an option) and \<open>import(url)\<close> (resolving to the module's
  \<open>default\<close> member).
\<close>

record platform =
  customElements :: "string \<rightharpoonup> nat"
  parseURL :: "string \<Rightarrow> jserror + string"
  customElementsDefine :: "string \<Rightarrow> jsval \<Rightarrow> string option \<Rightarrow> jserror option"
  importModule :: "string \<Rightarrow> loaderResult"

text \<open>
  What a run of \<open>#define\<close> does once the promise of \<open>#load\<close> has settled: the
  \<open>console.warn\<close> messages, the calls of \<open>customElements.define\<close> and the state of the
  promise that \<open>.then(...).catch(...)\<close> returns, which nothing handles.
\<close>

record asyncRun =
  warned :: "string list"
  defined :: "(string \<times> jsval \<times> string option) list"
  outcome :: "unit settled"

text \<open>The calls an operation makes, in the order it makes them.\<close>

datatype event =
    FilterCalled jsval
  | ResolverCalled string
  | LoaderCalled string
  | PipelineRun elementNames asyncRun
  | SuperObserve observeTarget bool bool

definition quote :: "string \<Rightarrow> string" where
  "quote s = [CHR 0x27] @ s @ [CHR 0x27]"

section \<open>The gate\<close>

definition customElementsGet :: "platform \<Rightarrow> jsval \<Rightarrow> jsval" where
  "customElementsGet pf name =
     (case name of
        JStr s \<Rightarrow> (case customElements pf s of Some c \<Rightarrow> JCtor c | None \<Rightarrow> JUndefined)
      | _ \<Rightarrow> JUndefined)"

definition isRegistered :: "platform \<Rightarrow> jsval \<Rightarrow> bool" where
  "isRegistered pf name = (truthy name \<and> truthy (customElementsGet pf name))"

text \<open>The conjunction is evaluated left to right: the filter is called last, if at all.\<close>

definition shouldHandle :: "lazyLoader \<Rightarrow> platform \<Rightarrow> jsval \<Rightarrow> bool \<times> event list" where
  "shouldHandle this pf name =
     (if \<not> truthy name then (False, [])
      else if \<not> isCustomElementName name then (False, [])
      else if isRegistered pf name then (False, [])
      else (case filter' this of
              None \<Rightarrow> (True, [])
            | Some f \<Rightarrow> (truthy (f name), [FilterCalled name])))"

section \<open>The pipeline\<close>

text \<open>The three errors that \<open>#load\<close> throws.\<close>

definition unparsableUrl :: "string \<Rightarrow> string \<Rightarrow> jserror \<Rightarrow> jserror" where
  "unparsableUrl url name error =
     JsError SyntaxError
       (''Cannot parse provided URL '' @ quote url @ '' for '' @ quote name @ ''.'')
       (Some error)"

definition invalidUrl :: "string \<Rightarrow> jserror" where
  "invalidUrl name =
     JsError TypeError
       (''Configured CustomElementUrlResolver did not provide an valid URL for ''
          @ quote name @ ''.'')
       None"

definition loadingFailed :: "string \<Rightarrow> string \<Rightarrow> jserror \<Rightarrow> jserror" where
  "loadingFailed name url error =
     JsError Error
       (''Error loading constructor for custom-element '' @ quote name @ '' from ''
          @ quote url @ ''.'')
       (Some error)"

text \<open>
  \<open>#load\<close>: the state its promise ends in and the calls it makes before it first
  awaits. A loader that throws is caught like one whose promise rejects.
\<close>

definition load :: "lazyLoader \<Rightarrow> platform \<Rightarrow> string \<Rightarrow> jsval settled \<times> event list" where
  "load this pf name =
     (case urlResolver this name of
        Inl thrown \<Rightarrow> (Rejected thrown, [ResolverCalled name])
      | Inr url \<Rightarrow>
          (case (case url of
                   JStr s \<Rightarrow>
                     (case parseURL pf s of
                        Inl error \<Rightarrow> Inl (unparsableUrl s name error)
                      | Inr href \<Rightarrow> Inr (JUrl href))
                 | _ \<Rightarrow> Inr url) of
             Inl e \<Rightarrow> (Rejected e, [ResolverCalled name])
           | Inr url \<Rightarrow>
               (case url of
                  JUrl href \<Rightarrow>
                    ((case loader this href of
                        Resolves v \<Rightarrow> Fulfilled v
                      | Rejects error \<Rightarrow> Rejected (loadingFailed name href error)
                      | Throws error \<Rightarrow> Rejected (loadingFailed name href error)
                      | Never \<Rightarrow> Pending),
                     [ResolverCalled name, LoaderCalled href])
                | _ \<Rightarrow> (Rejected (invalidUrl name), [ResolverCalled name]))))"

text \<open>The callback given to \<open>.then\<close>.\<close>

definition thenCallback :: "platform \<Rightarrow> elementNames \<Rightarrow> jsval \<Rightarrow> asyncRun" where
  "thenCallback pf names ctor =
     (let options = (case isAttr names of Some v \<Rightarrow> Some (tagName names) | None \<Rightarrow> None)
      in if ctor = JNull
         then \<lparr> warned = [''Custom-Element constructor for '' @ quote (elementName names)
                            @ '' is null, skipping definition!''],
                defined = [],
                outcome = Fulfilled () \<rparr>
         else \<lparr> warned = [],
                defined = [(elementName names, ctor, options)],
                outcome = (case customElementsDefine pf (elementName names) ctor options of
                             None \<Rightarrow> Fulfilled ()
                           | Some thrown \<Rightarrow> Rejected thrown) \<rparr>)"

text \<open>The callback given to \<open>.catch\<close>: it throws the error it builds.\<close>

definition catchCallback :: "elementNames \<Rightarrow> jserror \<Rightarrow> jserror" where
  "catchCallback names error =
     JsError Error (''Error defining element '' @ quote (elementName names) @ ''.'') (Some error)"

definition define' :: "lazyLoader \<Rightarrow> platform \<Rightarrow> elementNames \<Rightarrow> event list" where
  "define' this pf names =
     (let (promise, trace) = load this pf (elementName names);
          afterThen = (case promise of
                         Fulfilled ctor \<Rightarrow> thenCallback pf names ctor
                       | Rejected e \<Rightarrow> \<lparr> warned = [], defined = [], outcome = Rejected e \<rparr>
                       | Pending \<Rightarrow> \<lparr> warned = [], defined = [], outcome = Pending \<rparr>);
          afterCatch = (case outcome afterThen of
                          Rejected e \<Rightarrow> afterThen \<lparr> outcome := Rejected (catchCallback names e) \<rparr>
                        | _ \<Rightarrow> afterThen)
      in trace @ [PipelineRun names afterCatch])"

section \<open>Handling one element\<close>

text \<open>
  The statements \<open>names = #resolveNames(element); if (#shouldHandle(names.elementName))
  #define(names)\<close>, which the two callbacks and the scan repeat.
\<close>

definition handleElement :: "lazyLoader \<Rightarrow> platform \<Rightarrow> element \<Rightarrow> event list" where
  "handleElement this pf element =
     (let names = resolveNames element;
          (ok, trace) = shouldHandle this pf (JStr (elementName names))
      in if \<not> ok then trace else trace @ define' this pf names)"

definition onElementAdded :: "lazyLoader \<Rightarrow> platform \<Rightarrow> element \<Rightarrow> event list" where
  "onElementAdded this pf element = handleElement this pf element"

definition onIsAttributeChanged :: "lazyLoader \<Rightarrow> platform \<Rightarrow> element \<Rightarrow> event list" where
  "onIsAttributeChanged this pf element = handleElement this pf element"

section \<open>The scanner\<close>

text \<open>
  The first argument of \<open>#scan\<close>, by the test of its first line: \<open>Single\<close> is an
  element without \<open>Symbol.iterator\<close>, which is wrapped into an array; \<open>Collection\<close> is
  an argument that has one, with the elements that iterating it yields: an HTMLCollection,
  or an element that is itself iterable.
\<close>

datatype scanTarget = Single element | Collection "element list"

fun iterate :: "scanTarget \<Rightarrow> element list" where
  "iterate (Single element) = [element]"
| "iterate (Collection elements) = elements"

fun weight :: "scanTarget \<Rightarrow> nat" where
  "weight (Single element) = size element"
| "weight (Collection elements) = size_list size elements"

function scan :: "lazyLoader \<Rightarrow> platform \<Rightarrow> scanTarget \<Rightarrow> bool \<Rightarrow> event list" where
  "scan this pf elements subtree =
     concat (map
       (\<lambda>element.
          handleElement this pf element
          @ (if subtree
             then concat (map
                    (\<lambda>child.
                       handleElement this pf child
                       @ scan this pf (Collection (children child)) True)
                    (children element))
             else []))
       (iterate elements))"
  by pat_completeness auto

lemma size_children: "child \<in> set (children element) \<Longrightarrow> size child < size element"
  by (cases element) (auto simp: less_Suc_eq_le size_list_estimation')

lemma size_iterate: "element \<in> set (iterate elements) \<Longrightarrow> size element \<le> weight elements"
  by (cases elements) (auto simp: size_list_estimation')

lemma weight_children: "weight (Collection (children child)) < size child"
  by (cases child) simp

termination scan
proof (relation "measure (\<lambda>(this, pf, elements, subtree). weight elements)")
  show "wf (measure (\<lambda>(this, pf, elements, subtree). weight elements))" by simp
next
  fix this :: lazyLoader and pf :: platform and elements subtree element child
  assume "element \<in> set (iterate elements)" "child \<in> set (children element)"
  then have "weight (Collection (children child)) < weight elements"
    using weight_children [of child] size_children [of child element]
      size_iterate [of element elements]
    by linarith
  then show "((this, pf, Collection (children child), True), this, pf, elements, subtree)
       \<in> measure (\<lambda>(this, pf, elements, subtree). weight elements)" by simp
qed

declare scan.simps [simp del]

section \<open>Options of observe\<close>

text \<open>
  The options of \<open>observe\<close> as the caller gives them (\<open>JUndefined\<close> for a member that
  is not there) and as \<open>#resolveObserveOptions\<close> returns them. \<open>None\<close> is a falsy
  \<open>options\<close> argument.
\<close>

record observeInit =
  scanInit :: jsval
  subtreeInit :: jsval

record observeOptions =
  scanOption :: bool
  subtreeOption :: bool

definition resolveObserveOptions :: "observeInit option \<Rightarrow> observeOptions \<Rightarrow> observeOptions" where
  "resolveObserveOptions options defaults =
     (case options of
        None \<Rightarrow> defaults
      | Some given \<Rightarrow>
          \<lparr> scanOption = (if scanInit given \<noteq> JUndefined then truthy (scanInit given)
                          else scanOption defaults),
            subtreeOption = (if subtreeInit given \<noteq> JUndefined then truthy (subtreeInit given)
                             else subtreeOption defaults) \<rparr>)"

section \<open>The mutation callback\<close>

datatype node = ElementNode element | TextNode string | CommentNode string

fun nodeType :: "node \<Rightarrow> nat" where
  "nodeType (ElementNode e) = 1"
| "nodeType (TextNode t) = 3"
| "nodeType (CommentNode t) = 8"

definition ELEMENT_NODE :: nat where
  "ELEMENT_NODE = 1"

record mutationRecord =
  recordType :: string
  target :: element
  addedNodes :: "node list"

text \<open>The body of the outer loop, for the record at hand.\<close>

definition handleRecord :: "lazyLoader \<Rightarrow> platform \<Rightarrow> mutationRecord \<Rightarrow> event list" where
  "handleRecord this pf mrecord =
     (if recordType mrecord = ''attributes'' then onIsAttributeChanged this pf (target mrecord)
      else concat (map
             (\<lambda>node. if nodeType node = ELEMENT_NODE
                      then (case node of ElementNode e \<Rightarrow> onElementAdded this pf e | _ \<Rightarrow> [])
                      else [])
             (addedNodes mrecord)))"

text \<open>The outer loop, from the index \<open>ri\<close> on.\<close>

function mutationLoop :: "lazyLoader \<Rightarrow> platform \<Rightarrow> mutationRecord list \<Rightarrow> nat \<Rightarrow> event list" where
  "mutationLoop this pf records ri =
     (if ri < length records
      then handleRecord this pf (records ! ri) @ mutationLoop this pf records (Suc ri)
      else [])"
  by pat_completeness auto

termination mutationLoop
  by (relation "measure (\<lambda>(this, pf, records, ri). length records - ri)") auto

declare mutationLoop.simps [simp del]

definition mutationCallback :: "lazyLoader \<Rightarrow> platform \<Rightarrow> mutationRecord list \<Rightarrow> event list" where
  "mutationCallback this pf records = mutationLoop this pf records 0"

section \<open>observe\<close>

text \<open>
  The error of \<open>#resolveNames\<close> on a node that is not an element: its \<open>tagName\<close> is
  undefined, and the call of \<open>toLowerCase\<close> on it throws. The message is the engine's.
\<close>

definition tagNameMissing :: jserror where
  "tagNameMissing =
     JsError TypeError
       (''Cannot read properties of undefined (reading '' @ quote ''toLowerCase'' @ '')'')
       None"

text \<open>
  \<open>observe\<close>: the calls it makes, and the error it throws if any. The scan is given the
  target as it is: an iterable element is iterated and not visited itself, and a node
  that is not an element makes the scan throw at its first step, after the subscription.
\<close>

definition observe ::
  "lazyLoader \<Rightarrow> platform \<Rightarrow> observeTarget \<Rightarrow> observeInit option
     \<Rightarrow> event list \<times> jserror option" where
  "observe this pf target' options =
     (let options = resolveObserveOptions options \<lparr> scanOption = True, subtreeOption = True \<rparr>;
          subscribed = [SuperObserve target' (subtreeOption options) (subtreeOption options)]
      in if scanOption options
         then (case target' of
                 PlainElement e \<Rightarrow>
                   (subscribed @ scan this pf (Single e) (subtreeOption options), None)
               | IterableElement e items \<Rightarrow>
                   (subscribed @ scan this pf (Collection items) (subtreeOption options), None)
               | OtherNode k \<Rightarrow> (subscribed, Some tagNameMissing))
         else (subscribed, None))"

section \<open>Construction\<close>

text \<open>
  A member of the constructor's \<open>options\<close>: what the code tells apart is a function, an
  array, a \<open>Map\<close> (its entries, one for each key) and the rest, of which some values are
  falsy. \<open>None\<close> is a falsy \<open>options\<close> argument.
\<close>

datatype 'f optval =
    OptUndefined
  | OptNull
  | OptBool bool
  | OptNum int
  | OptStr string
  | OptFunction 'f
  | OptArray "jsval list"
  | OptMap "(jsval \<times> jsval) list"
  | OptObject

fun optTruthy :: "'f optval \<Rightarrow> bool" where
  "optTruthy OptUndefined = False"
| "optTruthy OptNull = False"
| "optTruthy (OptBool b) = b"
| "optTruthy (OptNum n) = (n \<noteq> 0)"
| "optTruthy (OptStr s) = (s \<noteq> [])"
| "optTruthy (OptFunction f) = True"
| "optTruthy (OptArray xs) = True"
| "optTruthy (OptMap m) = True"
| "optTruthy OptObject = True"

record constructorInit =
  filterInit :: "(jsval \<Rightarrow> jsval) optval"
  urlResolverInit :: "(string \<Rightarrow> jserror + jsval) optval"
  loaderInit :: "(string \<Rightarrow> loaderResult) optval"

text \<open>The three chains of tests of \<open>#resolveConstructorOptions\<close>, one per member.\<close>

definition filterOption ::
  "(jsval \<Rightarrow> jsval) optval \<Rightarrow> lazyLoader \<Rightarrow> jserror + (jsval \<Rightarrow> jsval) option" where
  "filterOption given defaults =
     (if \<not> optTruthy given then Inr (filter' defaults)
      else (case given of
              OptFunction f \<Rightarrow> Inr (Some f)
            | OptArray names \<Rightarrow> Inr (Some (\<lambda>name. JBool (name \<in> set names)))
            | _ \<Rightarrow> Inl (JsError TypeError
                 ''Expecting provided filter to be type of function or string[].'' None)))"

definition urlResolverOption ::
  "(string \<Rightarrow> jserror + jsval) optval \<Rightarrow> lazyLoader
     \<Rightarrow> jserror + (string \<Rightarrow> jserror + jsval)" where
  "urlResolverOption given defaults =
     (if \<not> optTruthy given then Inr (urlResolver defaults)
      else (case given of
              OptFunction f \<Rightarrow> Inr f
            | OptMap entries \<Rightarrow>
                Inr (\<lambda>name. case map_of entries (JStr name) of
                               Some v \<Rightarrow> Inr v
                             | None \<Rightarrow> Inr JUndefined)
            | _ \<Rightarrow> Inl (JsError TypeError
                 ''Expecting provided urlResolver to be type of function.'' None)))"

definition loaderOption ::
  "(string \<Rightarrow> loaderResult) optval \<Rightarrow> lazyLoader \<Rightarrow> jserror + (string \<Rightarrow> loaderResult)" where
  "loaderOption given defaults =
     (if \<not> optTruthy given then Inr (loader defaults)
      else (case given of
              OptFunction f \<Rightarrow> Inr f
            | _ \<Rightarrow> Inl (JsError TypeError
                 ''Expecting provided loader to be type of function.'' None)))"

text \<open>The first chain that throws ends the call.\<close>

definition resolveConstructorOptions ::
  "constructorInit option \<Rightarrow> lazyLoader \<Rightarrow> jserror + lazyLoader" where
  "resolveConstructorOptions options defaults =
     (case options of
        None \<Rightarrow> Inr defaults
      | Some given \<Rightarrow>
          (case filterOption (filterInit given) defaults of
             Inl e \<Rightarrow> Inl e
           | Inr theFilter \<Rightarrow>
               (case urlResolverOption (urlResolverInit given) defaults of
                  Inl e \<Rightarrow> Inl e
                | Inr theUrlResolver \<Rightarrow>
                    (case loaderOption (loaderInit given) defaults of
                       Inl e \<Rightarrow> Inl e
                     | Inr theLoader \<Rightarrow>
                         Inr \<lparr> filter' = theFilter, urlResolver = theUrlResolver,
                               loader = theLoader \<rparr>))))"

definition resolveUrlDefault :: "platform \<Rightarrow> string \<Rightarrow> jserror + jsval" where
  "resolveUrlDefault pf name =
     (case parseURL pf (''/js/'' @ name @ ''-element.js'') of
        Inl thrown \<Rightarrow> Inl thrown
      | Inr href \<Rightarrow> Inr (JUrl href))"

definition loadDefault :: "platform \<Rightarrow> string \<Rightarrow> loaderResult" where
  "loadDefault pf url =
     (case importModule pf url of
        Resolves exported \<Rightarrow>
          (if \<not> truthy exported
           then Rejects (JsError TypeError
                  (''URL '' @ quote url @ '' does not point do an ES-Module with default export.'')
                  None)
           else Resolves exported)
      | other \<Rightarrow> other)"

text \<open>The constructor: the options are resolved against the defaults and stored.\<close>

definition newCustomElementsLazyLoader ::
  "platform \<Rightarrow> constructorInit option \<Rightarrow> jserror + lazyLoader" where
  "newCustomElementsLazyLoader pf options =
     resolveConstructorOptions options
       \<lparr> filter' = None, urlResolver = resolveUrlDefault pf, loader = loadDefault pf \<rparr>"

section \<open>Notions used in the statements\<close>

text \<open>A capital letter: A to Z, or a capital letter of Latin-1.\<close>

definition isUpperCase :: "char \<Rightarrow> bool" where
  "isUpperCase c =
     (((65::nat) \<le> of_char c \<and> of_char c \<le> (90::nat))
      \<or> ((192::nat) \<le> of_char c \<and> of_char c \<le> (222::nat) \<and> of_char c \<noteq> (215::nat)))"

text \<open>The names given to the filter, the names given to the URL resolver, the URLs given
  to the loader and the runs of \<open>#define\<close>, each in the order of the calls.\<close>

fun filterCalls :: "event list \<Rightarrow> jsval list" where
  "filterCalls [] = []"
| "filterCalls (FilterCalled n # tr) = n # filterCalls tr"
| "filterCalls (ev # tr) = filterCalls tr"

fun resolverCalls :: "event list \<Rightarrow> string list" where
  "resolverCalls [] = []"
| "resolverCalls (ResolverCalled n # tr) = n # resolverCalls tr"
| "resolverCalls (ev # tr) = resolverCalls tr"

fun loaderCalls :: "event list \<Rightarrow> string list" where
  "loaderCalls [] = []"
| "loaderCalls (LoaderCalled u # tr) = u # loaderCalls tr"
| "loaderCalls (ev # tr) = loaderCalls tr"

fun pipelineRuns :: "event list \<Rightarrow> (elementNames \<times> asyncRun) list" where
  "pipelineRuns [] = []"
| "pipelineRuns (PipelineRun names run # tr) = (names, run) # pipelineRuns tr"
| "pipelineRuns (ev # tr) = pipelineRuns tr"

text \<open>An event is about a name: the filter or the resolver is called with it, or
  \<open>#define\<close> runs for it.\<close>

fun mentions :: "string \<Rightarrow> event \<Rightarrow> bool" where
  "mentions s (FilterCalled n) = (n = JStr s)"
| "mentions s (ResolverCalled n) = (n = s)"
| "mentions s (PipelineRun names run) = (elementName names = s)"
| "mentions s (LoaderCalled u) = False"
| "mentions s (SuperObserve e c t) = False"

text \<open>Document order: an element, then the elements of each child's subtree in turn.\<close>

fun preorder :: "element \<Rightarrow> element list" where
  "preorder (Element t a cs) = Element t a cs # concat (map preorder cs)"

text \<open>The elements a scan is to visit, in order.\<close>

definition visited :: "scanTarget \<Rightarrow> bool \<Rightarrow> element list" where
  "visited elements subtree =
     (if subtree then concat (map preorder (iterate elements)) else iterate elements)"

text \<open>A name that passes the gate's checks before the filter.\<close>

definition eligible :: "platform \<Rightarrow> string \<Rightarrow> bool" where
  "eligible pf s = (s \<noteq> [] \<and> isCustomElementName (JStr s) \<and> customElements pf s = None)"

text \<open>The events that the specification reads off a mutation record.\<close>

datatype domEvent = ElementAdded element | RoleAttributeChanged element

fun addedElements :: "node list \<Rightarrow> element list" where
  "addedElements [] = []"
| "addedElements (ElementNode e # ns) = e # addedElements ns"
| "addedElements (n # ns) = addedElements ns"

definition eventsOf :: "mutationRecord \<Rightarrow> domEvent list" where
  "eventsOf mrecord =
     (if recordType mrecord = ''attributes'' then [RoleAttributeChanged (target mrecord)]
      else map ElementAdded (addedElements (addedNodes mrecord)))"

fun dispatch :: "lazyLoader \<Rightarrow> platform \<Rightarrow> domEvent \<Rightarrow> event list" where
  "dispatch this pf (ElementAdded e) = onElementAdded this pf e"
| "dispatch this pf (RoleAttributeChanged e) = onIsAttributeChanged this pf e"

subsection \<open>A host and instances to run the definitions on\<close>

text \<open>
  A host in which \<open>a-element\<close> is registered, every string but the empty one parses as a
  URL against \<open>http://localhost/\<close>, and \<open>define\<close> refuses a name that is registered.
\<close>

definition testPlatform :: platform where
  "testPlatform =
     \<lparr> customElements = [''a-element'' \<mapsto> 0],
       parseURL = (\<lambda>s. if s = [] then Inl (JsError TypeError ''Invalid URL'' None)
                        else Inr (''http://localhost/'' @ s)),
       customElementsDefine = (\<lambda>name ctor ext.
          if name = ''a-element'' then Some (JsError Thrown ''NotSupportedError'' None) else None),
       importModule = (\<lambda>url. Never) \<rparr>"

text \<open>An instance whose filter accepts every name, with a loader that resolves to null
  for \<open>x-element.js\<close>, to a class for \<open>y-element.js\<close> and rejects otherwise.\<close>

definition testLoader :: lazyLoader where
  "testLoader =
     \<lparr> filter' = Some (\<lambda>name. JBool True),
       urlResolver = (\<lambda>name. Inr (JStr (name @ ''.js''))),
       loader = (\<lambda>url. if url = ''http://localhost/x-element.js'' then Resolves JNull
                         else if url = ''http://localhost/y-element.js'' then Resolves (JCtor 7)
                         else Rejects (JsError Thrown ''not found'' None)) \<rparr>"

text \<open>A batch of records in which the registered name comes up three times.\<close>

definition registeredTwice :: "mutationRecord list" where
  "registeredTwice =
     [\<lparr> recordType = ''childList'', target = Element ''DIV'' None [],
        addedNodes = [ElementNode (Element ''A-ELEMENT'' None []), TextNode ''text'',
                      ElementNode (Element ''A-ELEMENT'' None [])] \<rparr>,
      \<lparr> recordType = ''attributes'', target = Element ''DIV'' (Some ''a-element'') [],
        addedNodes = [] \<rparr>]"

text \<open>A tree with valid, invalid, reserved and registered names, as a tag or as an
  \<open>is\<close> attribute, two of them one level down.\<close>

definition testScope :: element where
  "testScope = Element ''DIV'' None
     [Element ''X-ELEMENT'' None [],
      Element ''DIV'' (Some ''is-x-element'') [],
      Element ''XELEMENT'' None [],
      Element ''1-INVALID'' None [],
      Element ''DIV'' (Some ''1-invalid'') [],
      Element ''ANNOTATION-XML'' None [],
      Element ''DIV'' (Some ''missing-glyph'') [],
      Element ''A-ELEMENT'' None [],
      Element ''DIV'' None
        [Element ''Y-ELEMENT'' None [],
         Element ''DIV'' (Some ''is-y-element'') []]]"

text \<open>The element of an event, and whether an element passes the gate.\<close>

fun elementOf :: "domEvent \<Rightarrow> element" where
  "elementOf (ElementAdded e) = e"
| "elementOf (RoleAttributeChanged e) = e"

definition passes :: "lazyLoader \<Rightarrow> platform \<Rightarrow> element \<Rightarrow> bool" where
  "passes this pf e = fst (shouldHandle this pf (JStr (elementName (resolveNames e))))"

text \<open>The names resolved for an \<open>x-element\<close> and for a \<open>div\<close> with
  \<open>is="is-z-element"\<close>.\<close>

definition xElement :: elementNames where
  "xElement = \<lparr> elementName = ''x-element'', tagName = ''x-element'', isAttr = None \<rparr>"

definition zElement :: elementNames where
  "zElement = \<lparr> elementName = ''is-z-element'', tagName = ''div'', isAttr = Some ''is-z-element'' \<rparr>"

text \<open>A batch: a child-list record adding a text node, an element with a child and a
  comment, then an attribute record.\<close>

definition testBatch :: "mutationRecord list" where
  "testBatch =
     [\<lparr> recordType = ''childList'', target = Element ''DIV'' None [],
        addedNodes = [TextNode ''text'',
                      ElementNode (Element ''X-ELEMENT'' None [Element ''Y-ELEMENT'' None []]),
                      CommentNode ''note''] \<rparr>,
      \<lparr> recordType = ''attributes'', target = Element ''DIV'' (Some ''is-z-element'') [],
        addedNodes = [] \<rparr>]"

text \<open>The test instance with a URL resolver that answers every name with one value.\<close>

definition answering :: "jsval \<Rightarrow> lazyLoader" where
  "answering v = testLoader \<lparr> urlResolver := (\<lambda>name. Inr v) \<rparr>"

text \<open>The names resolved for an \<open>x-y\<close> element.\<close>

definition xy :: elementNames where
  "xy = \<lparr> elementName = ''x-y'', tagName = ''x-y'', isAttr = None \<rparr>"

text \<open>\<open>typeof v === 'function'\<close>, \<open>Array.isArray(v)\<close> and \<open>v instanceof Map\<close>.\<close>

fun isFunction :: "'f optval \<Rightarrow> bool" where
  "isFunction (OptFunction f) = True"
| "isFunction v = False"

fun isArray :: "'f optval \<Rightarrow> bool" where
  "isArray (OptArray xs) = True"
| "isArray v = False"

fun isMap :: "'f optval \<Rightarrow> bool" where
  "isMap (OptMap m) = True"
| "isMap v = False"

text \<open>A member that is given and has none of the accepted shapes.\<close>

definition badFilter :: "constructorInit \<Rightarrow> bool" where
  "badFilter given =
     (optTruthy (filterInit given) \<and> \<not> isFunction (filterInit given)
      \<and> \<not> isArray (filterInit given))"

definition badUrlResolver :: "constructorInit \<Rightarrow> bool" where
  "badUrlResolver given =
     (optTruthy (urlResolverInit given) \<and> \<not> isFunction (urlResolverInit given)
      \<and> \<not> isMap (urlResolverInit given))"

definition badLoader :: "constructorInit \<Rightarrow> bool" where
  "badLoader given = (optTruthy (loaderInit given) \<and> \<not> isFunction (loaderInit given))"

text \<open>Constructor options: a list and a table, and three falsy members.\<close>

definition testInit :: constructorInit where
  "testInit =
     \<lparr> filterInit = OptArray [JStr ''x-element''],
       urlResolverInit = OptMap [(JStr ''x-element'', JStr ''/js/x-element-element.js'')],
       loaderInit = OptUndefined \<rparr>"

definition falsyInit :: constructorInit where
  "falsyInit = \<lparr> filterInit = OptNum 0, urlResolverInit = OptStr [], loaderInit = OptBool False \<rparr>"

section \<open>Strings\<close>

lemma lowerChar_not_upper: "\<not> isUpperCase (lowerChar c)"
proof (cases "isUpperCase c")
  case True
  then have bound: "(of_char c :: nat) + 32 < 256"
    by (auto simp: isUpperCase_def)
  then have "(of_char (char_of (of_char c + (32::nat))) :: nat) = of_char c + 32"
    by simp
  with True show ?thesis
    by (auto simp: lowerChar_def isUpperCase_def)
next
  case False
  then show ?thesis by (simp add: lowerChar_def isUpperCase_def)
qed

lemma lowerChar_fixed: "\<not> isUpperCase c \<Longrightarrow> lowerChar c = c"
  by (auto simp: lowerChar_def isUpperCase_def)

lemma toLowerCase_idem: "toLowerCase (toLowerCase s) = toLowerCase s"
  by (simp add: toLowerCase_def lowerChar_fixed lowerChar_not_upper)

lemma toLowerCase_no_upper: "c \<in> set (toLowerCase s) \<Longrightarrow> \<not> isUpperCase c"
  by (auto simp: toLowerCase_def lowerChar_not_upper)

lemma lowerChar_code:
  "(of_char (lowerChar c) :: nat) = (if isUpperCase c then of_char c + 32 else of_char c)"
proof (cases "isUpperCase c")
  case True
  then have "(of_char c :: nat) + 32 < 256"
    by (auto simp: isUpperCase_def)
  then have "(of_char (char_of (of_char c + (32::nat))) :: nat) = of_char c + 32"
    by simp
  with True show ?thesis by (auto simp: lowerChar_def isUpperCase_def)
next
  case False
  then show ?thesis by (simp add: lowerChar_fixed)
qed

lemma toLowerCase_samples:
  "toLowerCase ''DIV'' = ''div''"
  "toLowerCase ''DiV'' = ''div''"
  "toLowerCase ''My-Element'' = ''my-element''"
  "toLowerCase ''X-ELEMENT'' = ''x-element''"
  "toLowerCase [] = []"
  "toLowerCase [CHR ''X'', CHR ''-'', CHR 0xC9] = [CHR ''x'', CHR ''-'', CHR 0xE9]"
  "toLowerCase [CHR 0xD7, CHR 0xDF, CHR 0xDE, CHR 0xC0] = [CHR 0xD7, CHR 0xDF, CHR 0xFE, CHR 0xE0]"
  by code_simp+

lemma indexOf_neg_iff: "indexOf s c < 0 \<longleftrightarrow> c \<notin> set s"
  by (induction s) (auto simp: Let_def)

lemma indexOf_ge: "- 1 \<le> indexOf s c"
  by (induction s) (auto simp: Let_def)

text \<open>\<open>indexOf\<close> is the first index at which the character stands.\<close>

lemma indexOf_first:
  "indexOf s c = int i \<longleftrightarrow> i < length s \<and> s ! i = c \<and> (\<forall>j<i. s ! j \<noteq> c)"
proof (induction s arbitrary: i)
  case Nil
  then show ?case by simp
next
  case (Cons x xs)
  show ?case
  proof (cases "x = c")
    case True
    then show ?thesis by (cases i) auto
  next
    case False
    show ?thesis
    proof (cases i)
      case 0
      with False show ?thesis using indexOf_ge [of xs c] by (auto simp: Let_def)
    next
      case (Suc k)
      have "indexOf (x # xs) c = int (Suc k) \<longleftrightarrow> indexOf xs c = int k"
        using False by (auto simp: Let_def)
      also have "\<dots> \<longleftrightarrow> k < length xs \<and> xs ! k = c \<and> (\<forall>j<k. xs ! j \<noteq> c)"
        by (rule Cons.IH)
      also have "\<dots> \<longleftrightarrow> Suc k < length (x # xs) \<and> (x # xs) ! Suc k = c
          \<and> (\<forall>j<Suc k. (x # xs) ! j \<noteq> c)"
        using False by (auto simp: less_Suc_eq_0_disj)
      finally show ?thesis using Suc by simp
    qed
  qed
qed

lemma indexOf_pos_iff: "0 < indexOf s c \<longleftrightarrow> s \<noteq> [] \<and> hd s \<noteq> c \<and> c \<in> set (tl s)"
proof (cases s)
  case Nil
  then show ?thesis by simp
next
  case (Cons x xs)
  have "0 \<le> indexOf xs c \<longleftrightarrow> c \<in> set xs"
    using indexOf_neg_iff [of xs c] by linarith
  with Cons show ?thesis
    by (auto simp: Let_def)
qed

lemma later_index_iff:
  "s \<noteq> [] \<Longrightarrow> c \<in> set (tl s) \<longleftrightarrow> (\<exists>i. 1 \<le> i \<and> i < length s \<and> s ! i = c)"
proof (cases s)
  case Nil
  assume "s \<noteq> []"
  with Nil show ?thesis by simp
next
  case (Cons x xs)
  show ?thesis
  proof
    assume "c \<in> set (tl s)"
    then obtain k where "k < length xs" "xs ! k = c"
      using Cons by (auto simp: in_set_conv_nth)
    then have "1 \<le> Suc k \<and> Suc k < length s \<and> s ! Suc k = c"
      using Cons by simp
    then show "\<exists>i. 1 \<le> i \<and> i < length s \<and> s ! i = c" by blast
  next
    assume "\<exists>i. 1 \<le> i \<and> i < length s \<and> s ! i = c"
    then obtain i where i: "1 \<le> i" "i < length s" "s ! i = c" by blast
    then obtain k where "i = Suc k" by (cases i) auto
    with i Cons show "c \<in> set (tl s)" by auto
  qed
qed

section \<open>Name resolution\<close>

text \<open>
  C3. \<open>#resolveNames\<close> is a total function of the element's tag name and \<open>is\<close>
  attribute (it reads nothing else and changes nothing): \<open>tagName\<close> is the tag name in
  lower case; without an \<open>is\<close> attribute \<open>elementName\<close> equals \<open>tagName\<close> and
  \<open>isAttr\<close> is absent; with an \<open>is\<close> attribute \<open>elementName\<close> and \<open>isAttr\<close> are the
  attribute's value in lower case, whatever the tag. Lower case means: each capital letter
  is replaced by the code point 32 above it and every other code unit is kept, so that no
  capital letter is left in either name.
\<close>

theorem resolveNames_result:
  "resolveNames (Element t None cs)
     = \<lparr> elementName = toLowerCase t, tagName = toLowerCase t, isAttr = None \<rparr>
   \<and> resolveNames (Element t (Some v) cs)
     = \<lparr> elementName = toLowerCase v, tagName = toLowerCase t, isAttr = Some (toLowerCase v) \<rparr>
   \<and> tagName (resolveNames e) = toLowerCase (tagNameOf e)
   \<and> (getAttributeIs e = None \<longrightarrow>
        elementName (resolveNames e) = tagName (resolveNames e) \<and> isAttr (resolveNames e) = None)
   \<and> (\<forall>w. getAttributeIs e = Some w \<longrightarrow>
        elementName (resolveNames e) = toLowerCase w
        \<and> isAttr (resolveNames e) = Some (toLowerCase w))
   \<and> (\<forall>c \<in> set (elementName (resolveNames e) @ tagName (resolveNames e)). \<not> isUpperCase c)
   \<and> length (toLowerCase s) = length s
   \<and> (\<forall>i<length s. (of_char (toLowerCase s ! i) :: nat)
         = (if isUpperCase (s ! i) then of_char (s ! i) + 32 else of_char (s ! i)))"
proof -
  have none: "resolveNames (Element t None cs)
     = \<lparr> elementName = toLowerCase t, tagName = toLowerCase t, isAttr = None \<rparr>"
    by (simp add: resolveNames_def Let_def)
  have some: "resolveNames (Element t (Some v) cs)
     = \<lparr> elementName = toLowerCase v, tagName = toLowerCase t, isAttr = Some (toLowerCase v) \<rparr>"
    by (simp add: resolveNames_def Let_def)
  have tag: "tagName (resolveNames e) = toLowerCase (tagNameOf e)"
    by (cases "getAttributeIs e") (simp_all add: resolveNames_def Let_def)
  have absent: "getAttributeIs e = None \<longrightarrow>
        elementName (resolveNames e) = tagName (resolveNames e) \<and> isAttr (resolveNames e) = None"
    by (simp add: resolveNames_def Let_def)
  have present: "\<forall>w. getAttributeIs e = Some w \<longrightarrow>
        elementName (resolveNames e) = toLowerCase w
        \<and> isAttr (resolveNames e) = Some (toLowerCase w)"
    by (simp add: resolveNames_def Let_def)
  have lower: "\<forall>c \<in> set (elementName (resolveNames e) @ tagName (resolveNames e)).
      \<not> isUpperCase c"
    by (cases "getAttributeIs e")
      (auto simp: resolveNames_def Let_def dest: toLowerCase_no_upper)
  have len: "length (toLowerCase s) = length s"
    by (simp add: toLowerCase_def)
  have pointwise: "\<forall>i<length s. (of_char (toLowerCase s ! i) :: nat)
         = (if isUpperCase (s ! i) then of_char (s ! i) + 32 else of_char (s ! i))"
    by (simp add: toLowerCase_def lowerChar_code)
  from none some tag absent present lower len pointwise show ?thesis by blast
qed

theorem resolveNames_result_witness:
  "resolveNames (Element ''DIV'' None [])
     = \<lparr> elementName = ''div'', tagName = ''div'', isAttr = None \<rparr>
   \<and> resolveNames (Element ''DiV'' (Some ''My-Element'') [])
       = \<lparr> elementName = ''my-element'', tagName = ''div'', isAttr = Some ''my-element'' \<rparr>
   \<and> resolveNames (Element ''DIV'' (Some [CHR ''X'', CHR ''-'', CHR 0xC9]) [])
       = \<lparr> elementName = [CHR ''x'', CHR ''-'', CHR 0xE9], tagName = ''div'',
           isAttr = Some [CHR ''x'', CHR ''-'', CHR 0xE9] \<rparr>
   \<and> getAttributeIs (Element ''DiV'' (Some ''My-Element'') []) = Some ''My-Element''
   \<and> getAttributeIs (Element ''DIV'' None []) = None
   \<and> elementName (resolveNames (Element ''DIV'' None []))
       = tagName (resolveNames (Element ''DIV'' None []))
   \<and> elementName (resolveNames (Element ''DiV'' (Some ''My-Element'') [])) = ''my-element''
   \<and> (2::nat) < length [CHR ''X'', CHR ''-'', CHR 0xC9]
   \<and> isUpperCase ([CHR ''X'', CHR ''-'', CHR 0xC9] ! 2)
   \<and> (of_char (toLowerCase [CHR ''X'', CHR ''-'', CHR 0xC9] ! 2) :: nat) = 233"
proof -
  have up: "isUpperCase ([CHR ''X'', CHR ''-'', CHR 0xC9] ! 2)"
    by (simp add: isUpperCase_def)
  have code: "(of_char ([CHR ''X'', CHR ''-'', CHR 0xC9] ! 2) :: nat) = 201"
    by simp
  from resolveNames_result [of "''DIV''" "[]" "[CHR ''X'', CHR ''-'', CHR 0xC9]"
      "Element ''DIV'' None []" "[CHR ''X'', CHR ''-'', CHR 0xC9]"]
  have point: "\<forall>i<length [CHR ''X'', CHR ''-'', CHR 0xC9].
      (of_char (toLowerCase [CHR ''X'', CHR ''-'', CHR 0xC9] ! i) :: nat)
         = (if isUpperCase ([CHR ''X'', CHR ''-'', CHR 0xC9] ! i)
            then of_char ([CHR ''X'', CHR ''-'', CHR 0xC9] ! i) + 32
            else of_char ([CHR ''X'', CHR ''-'', CHR 0xC9] ! i))"
    and latin: "resolveNames (Element ''DIV'' (Some [CHR ''X'', CHR ''-'', CHR 0xC9]) [])
       = \<lparr> elementName = toLowerCase [CHR ''X'', CHR ''-'', CHR 0xC9],
           tagName = toLowerCase ''DIV'',
           isAttr = Some (toLowerCase [CHR ''X'', CHR ''-'', CHR 0xC9]) \<rparr>"
    by blast+
  from point have "(of_char (toLowerCase [CHR ''X'', CHR ''-'', CHR 0xC9] ! 2) :: nat)
      = (if isUpperCase ([CHR ''X'', CHR ''-'', CHR 0xC9] ! 2)
            then of_char ([CHR ''X'', CHR ''-'', CHR 0xC9] ! 2) + 32
            else of_char ([CHR ''X'', CHR ''-'', CHR 0xC9] ! 2))"
    by (simp del: nth_Cons_numeral)
  with up code
  have c233: "(of_char (toLowerCase [CHR ''X'', CHR ''-'', CHR 0xC9] ! 2) :: nat) = 233"
    by (simp only: if_True)
  from resolveNames_result [of "''DIV''" "[]" "''My-Element''" "Element ''DIV'' None []" "[]"]
    resolveNames_result [of "''DiV''" "[]" "''My-Element''"
      "Element ''DiV'' (Some ''My-Element'') []" "[]"]
  have rest: "resolveNames (Element ''DIV'' None [])
     = \<lparr> elementName = ''div'', tagName = ''div'', isAttr = None \<rparr>
   \<and> resolveNames (Element ''DiV'' (Some ''My-Element'') [])
       = \<lparr> elementName = ''my-element'', tagName = ''div'', isAttr = Some ''my-element'' \<rparr>
   \<and> getAttributeIs (Element ''DiV'' (Some ''My-Element'') []) = Some ''My-Element''
   \<and> getAttributeIs (Element ''DIV'' None []) = None
   \<and> elementName (resolveNames (Element ''DIV'' None []))
       = tagName (resolveNames (Element ''DIV'' None []))
   \<and> elementName (resolveNames (Element ''DiV'' (Some ''My-Element'') [])) = ''my-element''"
    by (simp add: toLowerCase_samples)
  have latin': "resolveNames (Element ''DIV'' (Some [CHR ''X'', CHR ''-'', CHR 0xC9]) [])
       = \<lparr> elementName = [CHR ''x'', CHR ''-'', CHR 0xE9], tagName = ''div'',
           isAttr = Some [CHR ''x'', CHR ''-'', CHR 0xE9] \<rparr>"
    using latin by (simp add: toLowerCase_samples)
  have len: "(2::nat) < length [CHR ''X'', CHR ''-'', CHR 0xC9]" by simp
  from rest latin' len up c233 show ?thesis by blast
qed

section \<open>Validity of names\<close>

lemma isCustomElementName_samples:
  "isCustomElementName (JStr ''x-y'')"
  "\<not> isCustomElementName (JStr ''1-invalid'')"
  "\<not> isCustomElementName (JStr ''noHyphen'')"
  "\<not> isCustomElementName (JStr [])"
  by (simp_all add: isCustomElementName_def charCodeAt_def INVALID_CUSTOM_ELEMENT_NAMES_def)

lemma isCustomElementName_reserved:
  "\<not> isCustomElementName (JStr ''annotation-xml'')"
  "\<not> isCustomElementName (JStr ''color-profile'')"
  "\<not> isCustomElementName (JStr ''font-face'')"
  "\<not> isCustomElementName (JStr ''font-face-src'')"
  "\<not> isCustomElementName (JStr ''font-face-uri'')"
  "\<not> isCustomElementName (JStr ''font-face-format'')"
  "\<not> isCustomElementName (JStr ''font-face-name'')"
  "\<not> isCustomElementName (JStr ''missing-glyph'')"
  by (simp_all add: isCustomElementName_def INVALID_CUSTOM_ELEMENT_NAMES_def)

lemma isCustomElementName_string:
  "isCustomElementName (JStr s) \<longleftrightarrow>
     s \<noteq> [] \<and> (97::nat) \<le> of_char (hd s) \<and> of_char (hd s) \<le> (122::nat)
     \<and> (\<exists>i. 1 \<le> i \<and> i < length s \<and> s ! i = CHR ''-'')
     \<and> s \<notin> set INVALID_CUSTOM_ELEMENT_NAMES"
proof (cases s)
  case Nil
  then show ?thesis by (simp add: isCustomElementName_def charCodeAt_def)
next
  case (Cons x xs)
  have first: "(97::nat) \<le> of_char x \<Longrightarrow> x \<noteq> CHR ''-''" by auto
  have "isCustomElementName (JStr s) \<longleftrightarrow>
      (97::nat) \<le> of_char x \<and> of_char x \<le> (122::nat) \<and> CHR ''-'' \<in> set xs
      \<and> s \<notin> set INVALID_CUSTOM_ELEMENT_NAMES"
    using Cons first
    by (auto simp: isCustomElementName_def charCodeAt_def indexOf_pos_iff
        simp del: indexOf.simps)
  also have "CHR ''-'' \<in> set xs \<longleftrightarrow> (\<exists>i. 1 \<le> i \<and> i < length s \<and> s ! i = CHR ''-'')"
    using later_index_iff [of s "CHR ''-''"] Cons by simp
  finally show ?thesis using Cons by simp
qed

text \<open>
  C5. \<open>#isCustomElementName\<close> is a total predicate on values: it holds exactly of the
  strings that are not empty, start with a letter a-z, have a hyphen at an index of at
  least 1 and are not one of the eight reserved names. So it is false of every value that
  is not a string, of the empty string and of each reserved name; it holds of \<open>x-y\<close> and
  not of \<open>1-invalid\<close> and \<open>noHyphen\<close>.
\<close>

theorem isCustomElementName_total:
  "(isCustomElementName v \<longleftrightarrow>
      (\<exists>s. v = JStr s \<and> s \<noteq> []
         \<and> (97::nat) \<le> of_char (hd s) \<and> of_char (hd s) \<le> (122::nat)
         \<and> (\<exists>i. 1 \<le> i \<and> i < length s \<and> s ! i = CHR ''-'')
         \<and> s \<notin> {''annotation-xml'', ''color-profile'', ''font-face'', ''font-face-src'',
                 ''font-face-uri'', ''font-face-format'', ''font-face-name'',
                 ''missing-glyph''}))
   \<and> \<not> isCustomElementName JUndefined \<and> \<not> isCustomElementName JNull
   \<and> \<not> isCustomElementName (JBool b) \<and> \<not> isCustomElementName (JNum n)
   \<and> \<not> isCustomElementName JNaN \<and> \<not> isCustomElementName (JUrl u)
   \<and> \<not> isCustomElementName (JCtor k) \<and> \<not> isCustomElementName (JObject k)
   \<and> \<not> isCustomElementName (JStr [])
   \<and> \<not> isCustomElementName (JStr ''annotation-xml'')
   \<and> \<not> isCustomElementName (JStr ''color-profile'')
   \<and> \<not> isCustomElementName (JStr ''font-face'')
   \<and> \<not> isCustomElementName (JStr ''font-face-src'')
   \<and> \<not> isCustomElementName (JStr ''font-face-uri'')
   \<and> \<not> isCustomElementName (JStr ''font-face-format'')
   \<and> \<not> isCustomElementName (JStr ''font-face-name'')
   \<and> \<not> isCustomElementName (JStr ''missing-glyph'')
   \<and> isCustomElementName (JStr ''x-y'')
   \<and> \<not> isCustomElementName (JStr ''1-invalid'')
   \<and> \<not> isCustomElementName (JStr ''noHyphen'')"
proof -
  have reserved: "set INVALID_CUSTOM_ELEMENT_NAMES =
      {''annotation-xml'', ''color-profile'', ''font-face'', ''font-face-src'',
       ''font-face-uri'', ''font-face-format'', ''font-face-name'', ''missing-glyph''}"
    by (simp add: INVALID_CUSTOM_ELEMENT_NAMES_def)
  have exact: "isCustomElementName v \<longleftrightarrow>
      (\<exists>s. v = JStr s \<and> s \<noteq> []
         \<and> (97::nat) \<le> of_char (hd s) \<and> of_char (hd s) \<le> (122::nat)
         \<and> (\<exists>i. 1 \<le> i \<and> i < length s \<and> s ! i = CHR ''-'')
         \<and> s \<notin> {''annotation-xml'', ''color-profile'', ''font-face'', ''font-face-src'',
                 ''font-face-uri'', ''font-face-format'', ''font-face-name'',
                 ''missing-glyph''})"
  proof (cases v)
    case (JStr s)
    then show ?thesis
      using isCustomElementName_string [of s] by (simp only: reserved jsval.inject simp_thms ex_simps)
  qed (simp_all add: isCustomElementName_def)
  have others: "\<not> isCustomElementName JUndefined" "\<not> isCustomElementName JNull"
    "\<not> isCustomElementName (JBool b)" "\<not> isCustomElementName (JNum n)"
    "\<not> isCustomElementName JNaN" "\<not> isCustomElementName (JUrl u)"
    "\<not> isCustomElementName (JCtor k)" "\<not> isCustomElementName (JObject k)"
    by (simp_all add: isCustomElementName_def)
  from exact others isCustomElementName_samples isCustomElementName_reserved
  show ?thesis by blast
qed

section \<open>The gate and the traces\<close>

lemma shouldHandle_registered:
  "customElements pf s = Some c \<Longrightarrow> shouldHandle this pf (JStr s) = (False, [])"
  by (simp add: shouldHandle_def isRegistered_def customElementsGet_def)

lemma shouldHandle_fst:
  "fst (shouldHandle this pf n) \<longleftrightarrow>
     (\<exists>s. n = JStr s \<and> s \<noteq> [] \<and> isCustomElementName n \<and> customElements pf s = None
        \<and> (filter' this = None \<or> (\<exists>f. filter' this = Some f \<and> truthy (f n))))"
proof (cases n)
  case (JStr s)
  then show ?thesis
    by (auto simp: shouldHandle_def isRegistered_def customElementsGet_def
        split: option.splits)
qed (simp_all add: shouldHandle_def isCustomElementName_def)

lemma shouldHandle_trace:
  "snd (shouldHandle this pf n) =
     (if truthy n \<and> isCustomElementName n \<and> \<not> isRegistered pf n \<and> filter' this \<noteq> None
      then [FilterCalled n] else [])"
  by (auto simp: shouldHandle_def split: option.splits)

lemma load_mentions:
  "ev \<in> set (snd (load this pf n)) \<Longrightarrow> mentions s ev \<Longrightarrow> s = n"
  by (auto simp: load_def split: sum.splits jsval.splits loaderResult.splits)

lemma define_mentions:
  "ev \<in> set (define' this pf names) \<Longrightarrow> mentions s ev \<Longrightarrow> s = elementName names"
proof -
  assume ev: "ev \<in> set (define' this pf names)" and m: "mentions s ev"
  obtain promise trace where l: "load this pf (elementName names) = (promise, trace)"
    by (cases "load this pf (elementName names)")
  from ev l have "ev \<in> set trace \<or> (\<exists>run. ev = PipelineRun names run)"
    by (auto simp: define'_def Let_def)
  then show ?thesis
  proof
    assume "ev \<in> set trace"
    with l have "ev \<in> set (snd (load this pf (elementName names)))" by simp
    then show ?thesis using m by (rule load_mentions)
  next
    assume "\<exists>run. ev = PipelineRun names run"
    with m show ?thesis by auto
  qed
qed

lemma handleElement_mentions:
  "ev \<in> set (handleElement this pf e) \<Longrightarrow> mentions s ev \<Longrightarrow> s = elementName (resolveNames e)"
  by (auto simp: handleElement_def Let_def shouldHandle_def split: prod.splits if_splits option.splits
       dest: define_mentions)

lemma handleElement_registered:
  "customElements pf (elementName (resolveNames e)) = Some c \<Longrightarrow> handleElement this pf e = []"
  by (simp add: handleElement_def Let_def shouldHandle_registered)

lemma handleElement_silent:
  assumes "customElements pf s \<noteq> None"
  shows "\<not> list_ex (mentions s) (handleElement this pf e)"
proof
  assume "list_ex (mentions s) (handleElement this pf e)"
  then obtain ev where ev: "ev \<in> set (handleElement this pf e)" "mentions s ev"
    by (auto simp: list_ex_iff)
  then have "s = elementName (resolveNames e)" by (rule handleElement_mentions)
  with assms have "handleElement this pf e = []" by (auto intro: handleElement_registered)
  with ev show False by simp
qed

lemma concat_silent:
  "(\<And>x. x \<in> set xs \<Longrightarrow> \<not> list_ex P (f x)) \<Longrightarrow> \<not> list_ex P (concat (map f xs))"
  by (induction xs) (auto simp: list_ex_iff)

lemma concat_map_concat:
  "concat (map f (concat (map g xs))) = concat (map (\<lambda>x. concat (map f (g x))) xs)"
  by (induction xs) simp_all

lemma preorder_unfold: "preorder e = e # concat (map preorder (children e))"
  by (cases e) simp

lemma scan_visits:
  "scan this pf elements subtree = concat (map (handleElement this pf) (visited elements subtree))"
proof (induction this pf elements subtree rule: scan.induct)
  case (1 this pf elements subtree)
  have step: "handleElement this pf child @ scan this pf (Collection (children child)) True
      = concat (map (handleElement this pf) (preorder child))"
    if "subtree" "element \<in> set (iterate elements)" "child \<in> set (children element)"
    for element child
  proof -
    have "preorder child = child # concat (map preorder (children child))"
      by (rule preorder_unfold)
    with "1.IH" [OF that(2) that(1) that(3)] show ?thesis
      by (simp add: visited_def)
  qed
  show ?case
  proof (cases subtree)
    case False
    then show ?thesis by (subst scan.simps) (simp add: visited_def)
  next
    case True
    have kids: "concat (map (\<lambda>child. handleElement this pf child
              @ scan this pf (Collection (children child)) True) (children element))
        = concat (map (handleElement this pf) (concat (map preorder (children element))))"
      if "element \<in> set (iterate elements)" for element
    proof -
      have "map (\<lambda>child. handleElement this pf child
              @ scan this pf (Collection (children child)) True) (children element)
          = map (\<lambda>child. concat (map (handleElement this pf) (preorder child))) (children element)"
        using step [OF True that] by (intro map_cong) auto
      then show ?thesis by (simp only: concat_map_concat)
    qed
    have each: "map (\<lambda>element. handleElement this pf element
            @ concat (map (\<lambda>child. handleElement this pf child
                @ scan this pf (Collection (children child)) True) (children element)))
          (iterate elements)
        = map (\<lambda>element. concat (map (handleElement this pf) (preorder element))) (iterate elements)"
    proof (intro map_cong refl)
      fix element assume "element \<in> set (iterate elements)"
      then have "concat (map (\<lambda>child. handleElement this pf child
              @ scan this pf (Collection (children child)) True) (children element))
        = concat (map (handleElement this pf) (concat (map preorder (children element))))"
        by (rule kids)
      moreover have "preorder element = element # concat (map preorder (children element))"
        by (rule preorder_unfold)
      ultimately show "handleElement this pf element
            @ concat (map (\<lambda>child. handleElement this pf child
                @ scan this pf (Collection (children child)) True) (children element))
          = concat (map (handleElement this pf) (preorder element))"
        by simp
    qed
    have "scan this pf elements subtree
        = concat (map (\<lambda>element. handleElement this pf element
            @ concat (map (\<lambda>child. handleElement this pf child
                @ scan this pf (Collection (children child)) True) (children element)))
          (iterate elements))"
      using True by (subst scan.simps) simp
    also have "\<dots> = concat (map (\<lambda>element. concat (map (handleElement this pf)
          (preorder element))) (iterate elements))"
      by (rule arg_cong [where f = concat]) (rule each)
    also have "\<dots> = concat (map (handleElement this pf) (visited elements subtree))"
      using True by (simp only: visited_def concat_map_concat if_True)
    finally show ?thesis .
  qed
qed

lemma mutationLoop_drop:
  "mutationLoop this pf records ri = concat (map (handleRecord this pf) (drop ri records))"
proof (induction this pf records ri rule: mutationLoop.induct)
  case (1 this pf records ri)
  show ?case
  proof (cases "ri < length records")
    case True
    then have "drop ri records = records ! ri # drop (Suc ri) records"
      by (simp add: Cons_nth_drop_Suc)
    with True "1.IH" show ?thesis by (subst mutationLoop.simps) simp
  next
    case False
    then show ?thesis by (subst mutationLoop.simps) simp
  qed
qed

lemma mutationCallback_records:
  "mutationCallback this pf records = concat (map (handleRecord this pf) records)"
  by (simp add: mutationCallback_def mutationLoop_drop)

lemma handleRecord_events:
  "handleRecord this pf r = concat (map (dispatch this pf) (eventsOf r))"
proof -
  have "concat (map (\<lambda>node. if nodeType node = ELEMENT_NODE
                      then (case node of ElementNode e \<Rightarrow> onElementAdded this pf e | _ \<Rightarrow> [])
                      else []) ns)
      = concat (map (dispatch this pf) (map ElementAdded (addedElements ns)))" for ns
    by (induction ns rule: addedElements.induct) (simp_all add: ELEMENT_NODE_def)
  then show ?thesis by (simp add: handleRecord_def eventsOf_def)
qed

lemma observe_trace:
  "observe this pf t options =
     (let opts = resolveObserveOptions options \<lparr> scanOption = True, subtreeOption = True \<rparr>;
          subscribed = SuperObserve t (subtreeOption opts) (subtreeOption opts)
      in if scanOption opts
         then (case t of
                 PlainElement e \<Rightarrow>
                   (subscribed # concat (map (handleElement this pf)
                      (visited (Single e) (subtreeOption opts))), None)
               | IterableElement e items \<Rightarrow>
                   (subscribed # concat (map (handleElement this pf)
                      (visited (Collection items) (subtreeOption opts))), None)
               | OtherNode k \<Rightarrow> ([subscribed], Some tagNameMissing))
         else ([subscribed], None))"
  by (simp add: observe_def Let_def scan_visits split: observeTarget.splits)

lemma observe_silent:
  assumes "customElements pf s \<noteq> None"
  shows "\<not> list_ex (mentions s) (fst (observe this pf t options))"
proof -
  have "\<not> list_ex (mentions s) (concat (map (handleElement this pf) es))" for es
    by (rule concat_silent) (rule handleElement_silent [OF assms])
  then show ?thesis by (cases t) (simp_all add: observe_trace Let_def)
qed

lemma scan_silent:
  assumes "customElements pf s \<noteq> None"
  shows "\<not> list_ex (mentions s) (scan this pf elements subtree)"
  unfolding scan_visits
  by (rule concat_silent) (rule handleElement_silent [OF assms])

lemma handleRecord_silent:
  assumes "customElements pf s \<noteq> None"
  shows "\<not> list_ex (mentions s) (handleRecord this pf r)"
  unfolding handleRecord_events
proof (rule concat_silent)
  fix ev
  show "\<not> list_ex (mentions s) (dispatch this pf ev)"
    using handleElement_silent [OF assms]
    by (cases ev) (simp_all add: onElementAdded_def onIsAttributeChanged_def)
qed

lemma mutationCallback_silent:
  assumes "customElements pf s \<noteq> None"
  shows "\<not> list_ex (mentions s) (mutationCallback this pf records)"
  unfolding mutationCallback_records
  by (rule concat_silent) (rule handleRecord_silent [OF assms])

text \<open>
  C1. \<open>#shouldHandle\<close> returns true exactly for a value that is a non-empty string, a
  valid custom-element name, not bound in the registry, and accepted by the filter when
  one is configured. Hence for a registered name the gate is false without calling the
  filter, and no mutation batch, scan or \<open>observe\<close> call contains a filter call, a
  resolver call or a run of \<open>#define\<close> for that name, however often elements carry it.
\<close>

theorem shouldHandle_gate:
  "(fst (shouldHandle this pf n) \<longleftrightarrow>
      (\<exists>s. n = JStr s \<and> s \<noteq> [] \<and> isCustomElementName n \<and> customElements pf s = None
         \<and> (filter' this = None \<or> (\<exists>f. filter' this = Some f \<and> truthy (f n)))))
   \<and> (customElements pf s \<noteq> None \<longrightarrow>
        shouldHandle this pf (JStr s) = (False, [])
        \<and> \<not> list_ex (mentions s) (mutationCallback this pf records)
        \<and> \<not> list_ex (mentions s) (scan this pf elements subtree)
        \<and> \<not> list_ex (mentions s) (fst (observe this pf t options)))"
proof (intro conjI impI)
  show "fst (shouldHandle this pf n) \<longleftrightarrow>
      (\<exists>s. n = JStr s \<and> s \<noteq> [] \<and> isCustomElementName n \<and> customElements pf s = None
         \<and> (filter' this = None \<or> (\<exists>f. filter' this = Some f \<and> truthy (f n))))"
    by (rule shouldHandle_fst)
next
  assume reg: "customElements pf s \<noteq> None"
  then show "shouldHandle this pf (JStr s) = (False, [])"
    by (auto intro: shouldHandle_registered)
  from reg show "\<not> list_ex (mentions s) (mutationCallback this pf records)"
    by (rule mutationCallback_silent)
  from reg show "\<not> list_ex (mentions s) (scan this pf elements subtree)"
    by (rule scan_silent)
  from reg show "\<not> list_ex (mentions s) (fst (observe this pf t options))"
    by (rule observe_silent)
qed

theorem shouldHandle_gate_witness:
  "customElements testPlatform ''a-element'' \<noteq> None
   \<and> shouldHandle testLoader testPlatform (JStr ''a-element'') = (False, [])
   \<and> \<not> list_ex (mentions ''a-element'') (mutationCallback testLoader testPlatform registeredTwice)
   \<and> \<not> list_ex (mentions ''a-element'')
        (scan testLoader testPlatform
           (Single (Element ''DIV'' None
              [Element ''A-ELEMENT'' None [], Element ''P'' (Some ''a-element'') []])) True)
   \<and> \<not> list_ex (mentions ''a-element'')
        (fst (observe testLoader testPlatform
           (IterableElement (Element ''FORM'' None [Element ''A-ELEMENT'' None []])
              [Element ''A-ELEMENT'' None []]) None))
   \<and> fst (shouldHandle testLoader testPlatform (JStr ''x-element''))"
proof -
  have reg: "customElements testPlatform ''a-element'' \<noteq> None"
    by (simp add: testPlatform_def)
  have free: "customElements testPlatform ''x-element'' = None"
    by (simp add: testPlatform_def)
  have valid: "isCustomElementName (JStr ''x-element'')"
    by (simp add: isCustomElementName_def charCodeAt_def INVALID_CUSTOM_ELEMENT_NAMES_def)
  have accepted: "\<exists>f. filter' testLoader = Some f \<and> truthy (f (JStr ''x-element''))"
    by (simp add: testLoader_def)
  from shouldHandle_gate [of testLoader testPlatform "JStr ''x-element''" "''a-element''"]
    free valid accepted
  have pass: "fst (shouldHandle testLoader testPlatform (JStr ''x-element''))"
    by simp
  from shouldHandle_gate [of testLoader testPlatform "JStr ''x-element''" "''a-element''"
      registeredTwice
      "Single (Element ''DIV'' None
              [Element ''A-ELEMENT'' None [], Element ''P'' (Some ''a-element'') []])" True
      "IterableElement (Element ''FORM'' None [Element ''A-ELEMENT'' None []])
              [Element ''A-ELEMENT'' None []]" None] reg pass
  show ?thesis by simp
qed

text \<open>
  C10. For an element whose \<open>is\<close> attribute is the empty string, the resolved
  \<open>elementName\<close> is empty, the gate is false and nothing is called for the element,
  whatever its tag name: neither callback nor the scan's visit of it does anything.
\<close>

theorem empty_is_attribute:
  "getAttributeIs e = Some [] \<Longrightarrow>
     elementName (resolveNames e) = []
     \<and> shouldHandle this pf (JStr (elementName (resolveNames e))) = (False, [])
     \<and> handleElement this pf e = []
     \<and> onElementAdded this pf e = []
     \<and> onIsAttributeChanged this pf e = []
     \<and> scan this pf (Single e) False = []"
proof -
  assume empty: "getAttributeIs e = Some []"
  then have name: "elementName (resolveNames e) = []"
    by (simp add: resolveNames_def Let_def toLowerCase_def)
  then have gate: "shouldHandle this pf (JStr (elementName (resolveNames e))) = (False, [])"
    by (simp add: shouldHandle_def)
  then have handled: "handleElement this pf e = []"
    by (simp add: handleElement_def Let_def)
  then have "scan this pf (Single e) False = []"
    by (simp add: scan_visits visited_def)
  with name gate handled show ?thesis
    by (simp add: onElementAdded_def onIsAttributeChanged_def)
qed

theorem empty_is_attribute_witness:
  "getAttributeIs (Element ''X-ELEMENT'' (Some []) []) = Some []
   \<and> elementName (resolveNames (Element ''X-ELEMENT'' (Some []) [])) = []
   \<and> handleElement testLoader testPlatform (Element ''X-ELEMENT'' (Some []) []) = []
   \<and> onElementAdded testLoader testPlatform (Element ''X-ELEMENT'' (Some []) []) = []
   \<and> onIsAttributeChanged testLoader testPlatform (Element ''X-ELEMENT'' (Some []) []) = []
   \<and> scan testLoader testPlatform (Single (Element ''X-ELEMENT'' (Some []) [])) False = []
   \<and> tagName (resolveNames (Element ''X-ELEMENT'' (Some []) [])) = ''x-element''
   \<and> fst (shouldHandle testLoader testPlatform (JStr ''x-element''))
   \<and> handleElement testLoader testPlatform (Element ''X-ELEMENT'' None []) \<noteq> []"
proof -
  have pass: "shouldHandle testLoader testPlatform (JStr ''x-element'')
      = (True, [FilterCalled (JStr ''x-element'')])"
    by (simp add: shouldHandle_def isRegistered_def customElementsGet_def testPlatform_def
        testLoader_def isCustomElementName_def charCodeAt_def INVALID_CUSTOM_ELEMENT_NAMES_def)
  have tag: "tagName (resolveNames (Element ''X-ELEMENT'' (Some []) [])) = ''x-element''"
    "elementName (resolveNames (Element ''X-ELEMENT'' None [])) = ''x-element''"
    by (simp_all add: resolveNames_def Let_def toLowerCase_samples)
  have other: "handleElement testLoader testPlatform (Element ''X-ELEMENT'' None []) \<noteq> []"
    by (simp add: handleElement_def Let_def tag pass)
  from empty_is_attribute [of "Element ''X-ELEMENT'' (Some []) []" testLoader testPlatform]
    pass tag other
  show ?thesis by simp
qed

section \<open>Scanning on observe\<close>

lemma addedElements_filter:
  "map ElementNode (addedElements ns) = filter (\<lambda>n. nodeType n = ELEMENT_NODE) ns"
  by (induction ns rule: addedElements.induct) (simp_all add: ELEMENT_NODE_def)

lemma handleElement_children:
  "handleElement this pf (Element t a cs) = handleElement this pf (Element t a [])"
  by (simp add: handleElement_def resolveNames_def)

lemma filterCalls_append: "filterCalls (xs @ ys) = filterCalls xs @ filterCalls ys"
  by (induction xs rule: filterCalls.induct) simp_all

lemma filterCalls_concat:
  "filterCalls (concat (map f xs)) = concat (map (\<lambda>x. filterCalls (f x)) xs)"
  by (induction xs) (simp_all add: filterCalls_append)

lemma filterCalls_load: "filterCalls (snd (load this pf n)) = []"
  by (auto simp: load_def split: sum.splits jsval.splits loaderResult.splits)

lemma filterCalls_define: "filterCalls (define' this pf names) = []"
proof -
  obtain promise trace where l: "load this pf (elementName names) = (promise, trace)"
    by (cases "load this pf (elementName names)")
  then have "filterCalls trace = []"
    using filterCalls_load [of this pf "elementName names"] by simp
  with l show ?thesis by (simp add: define'_def Let_def filterCalls_append)
qed

lemma filterCalls_handleElement:
  "filterCalls (handleElement this pf e) =
     (if filter' this \<noteq> None \<and> eligible pf (elementName (resolveNames e))
      then [JStr (elementName (resolveNames e))] else [])"
proof -
  obtain ok trace where g: "shouldHandle this pf (JStr (elementName (resolveNames e))) = (ok, trace)"
    by (cases "shouldHandle this pf (JStr (elementName (resolveNames e)))")
  then have "filterCalls (handleElement this pf e) = filterCalls trace"
    by (simp add: handleElement_def Let_def filterCalls_append filterCalls_define)
  moreover have "trace = snd (shouldHandle this pf (JStr (elementName (resolveNames e))))"
    using g by simp
  ultimately show ?thesis
    by (auto simp: shouldHandle_trace eligible_def isRegistered_def customElementsGet_def
        split: option.splits)
qed

text \<open>
  C2, as amended. \<open>observe\<close> with \<open>scan: false\<close> only subscribes, whatever the target:
  the filter is not called. For a target that is an element without an iterator of its
  own: with \<open>scan: true\<close> and \<open>subtree: false\<close> the target alone is handled; with
  \<open>subtree: true\<close> (the default) every element of the target's tree is handled once, in
  document order, the target first. Handling an element calls the filter at most once:
  exactly when a filter is configured and the element's resolved name is not empty, is a
  valid custom-element name and is not registered; the call is made with that name.
\<close>

theorem observe_filter_calls:
  "observe this pf t (Some \<lparr> scanInit = JBool False, subtreeInit = st \<rparr>)
     = ([SuperObserve t (st = JUndefined \<or> truthy st) (st = JUndefined \<or> truthy st)], None)
   \<and> filterCalls (fst (observe this pf t (Some \<lparr> scanInit = JBool False, subtreeInit = st \<rparr>)))
     = []
   \<and> observe this pf (PlainElement e) (Some \<lparr> scanInit = JBool True, subtreeInit = JBool False \<rparr>)
     = (SuperObserve (PlainElement e) False False # handleElement this pf e, None)
   \<and> filterCalls (fst (observe this pf (PlainElement e)
        (Some \<lparr> scanInit = JBool True, subtreeInit = JBool False \<rparr>)))
     = filterCalls (handleElement this pf e)
   \<and> observe this pf (PlainElement e) (Some \<lparr> scanInit = JBool True, subtreeInit = JBool True \<rparr>)
     = (SuperObserve (PlainElement e) True True
          # concat (map (handleElement this pf) (preorder e)), None)
   \<and> filterCalls (fst (observe this pf (PlainElement e)
        (Some \<lparr> scanInit = JBool True, subtreeInit = JBool True \<rparr>)))
     = concat (map (\<lambda>x. filterCalls (handleElement this pf x)) (preorder e))
   \<and> observe this pf t None
     = observe this pf t (Some \<lparr> scanInit = JBool True, subtreeInit = JBool True \<rparr>)
   \<and> filterCalls (handleElement this pf x)
     = (if filter' this \<noteq> None \<and> eligible pf (elementName (resolveNames x))
        then [JStr (elementName (resolveNames x))] else [])"
proof -
  have off: "observe this pf t (Some \<lparr> scanInit = JBool False, subtreeInit = st \<rparr>)
     = ([SuperObserve t (st = JUndefined \<or> truthy st) (st = JUndefined \<or> truthy st)], None)"
    by (auto simp: observe_trace resolveObserveOptions_def)
  have flat: "observe this pf (PlainElement e)
        (Some \<lparr> scanInit = JBool True, subtreeInit = JBool False \<rparr>)
     = (SuperObserve (PlainElement e) False False # handleElement this pf e, None)"
    by (simp add: observe_trace resolveObserveOptions_def visited_def)
  have deep: "observe this pf (PlainElement e)
        (Some \<lparr> scanInit = JBool True, subtreeInit = JBool True \<rparr>)
     = (SuperObserve (PlainElement e) True True
          # concat (map (handleElement this pf) (preorder e)), None)"
    by (simp add: observe_trace resolveObserveOptions_def visited_def)
  have dflt: "observe this pf t None
     = observe this pf t (Some \<lparr> scanInit = JBool True, subtreeInit = JBool True \<rparr>)"
    by (simp add: observe_trace resolveObserveOptions_def)
  have c0: "filterCalls (fst (observe this pf t
        (Some \<lparr> scanInit = JBool False, subtreeInit = st \<rparr>))) = []"
    by (simp only: off) simp
  have c1: "filterCalls (fst (observe this pf (PlainElement e)
        (Some \<lparr> scanInit = JBool True, subtreeInit = JBool False \<rparr>)))
     = filterCalls (handleElement this pf e)"
    by (simp only: flat) simp
  have c2: "filterCalls (fst (observe this pf (PlainElement e)
        (Some \<lparr> scanInit = JBool True, subtreeInit = JBool True \<rparr>)))
     = concat (map (\<lambda>x. filterCalls (handleElement this pf x)) (preorder e))"
    by (simp only: deep) (simp add: filterCalls_concat)
  from off c0 flat c1 deep c2 dflt filterCalls_handleElement [of this pf x]
  show ?thesis by blast
qed

text \<open>
  The other targets, with \<open>scan: true\<close>. For an element that is itself iterable the scan
  handles what iterating it yields, and with \<open>subtree\<close> their trees; the target is not
  handled. For a node that is not an element the call throws once it has subscribed.
\<close>

lemma observe_iterable:
  "observe this pf (IterableElement e items)
       (Some \<lparr> scanInit = JBool True, subtreeInit = JBool False \<rparr>)
     = (SuperObserve (IterableElement e items) False False
          # concat (map (handleElement this pf) items), None)"
  "observe this pf (IterableElement e items)
       (Some \<lparr> scanInit = JBool True, subtreeInit = JBool True \<rparr>)
     = (SuperObserve (IterableElement e items) True True
          # concat (map (handleElement this pf) (concat (map preorder items))), None)"
  by (simp_all add: observe_trace resolveObserveOptions_def visited_def)

lemma observe_other_node:
  "observe this pf (OtherNode k) (Some \<lparr> scanInit = JBool True, subtreeInit = st \<rparr>)
     = ([SuperObserve (OtherNode k) (st = JUndefined \<or> truthy st) (st = JUndefined \<or> truthy st)],
        Some tagNameMissing)"
  "observe this pf (OtherNode k) None
     = ([SuperObserve (OtherNode k) True True], Some tagNameMissing)"
  by (auto simp: observe_trace resolveObserveOptions_def)

lemma name_checks:
  "eligible testPlatform ''x-element''" "eligible testPlatform ''is-x-element''"
  "eligible testPlatform ''y-element''" "eligible testPlatform ''is-y-element''"
  "\<not> eligible testPlatform ''div''" "\<not> eligible testPlatform ''xelement''"
  "\<not> eligible testPlatform ''1-invalid''" "\<not> eligible testPlatform ''annotation-xml''"
  "\<not> eligible testPlatform ''missing-glyph''" "\<not> eligible testPlatform ''a-element''"
  by (simp_all add: eligible_def isCustomElementName_def charCodeAt_def
      INVALID_CUSTOM_ELEMENT_NAMES_def testPlatform_def)

lemma resolved_samples:
  "elementName (resolveNames (Element ''DIV'' None cs)) = ''div''"
  "elementName (resolveNames (Element ''X-ELEMENT'' None cs)) = ''x-element''"
  "elementName (resolveNames (Element ''Y-ELEMENT'' None cs)) = ''y-element''"
  "elementName (resolveNames (Element ''XELEMENT'' None cs)) = ''xelement''"
  "elementName (resolveNames (Element ''1-INVALID'' None cs)) = ''1-invalid''"
  "elementName (resolveNames (Element ''ANNOTATION-XML'' None cs)) = ''annotation-xml''"
  "elementName (resolveNames (Element ''A-ELEMENT'' None cs)) = ''a-element''"
  "elementName (resolveNames (Element t (Some ''is-x-element'') cs)) = ''is-x-element''"
  "elementName (resolveNames (Element t (Some ''is-y-element'') cs)) = ''is-y-element''"
  "elementName (resolveNames (Element t (Some ''1-invalid'') cs)) = ''1-invalid''"
  "elementName (resolveNames (Element t (Some ''missing-glyph'') cs)) = ''missing-glyph''"
  unfolding resolveNames_def Let_def by (simp_all, code_simp+)

theorem observe_filter_calls_witness:
  "filterCalls (fst (observe testLoader testPlatform (PlainElement testScope) None))
     = [JStr ''x-element'', JStr ''is-x-element'', JStr ''y-element'', JStr ''is-y-element'']
   \<and> length (preorder testScope) = 12
   \<and> filterCalls (fst (observe testLoader testPlatform (PlainElement (Element ''X-ELEMENT'' None []))
        (Some \<lparr> scanInit = JBool True, subtreeInit = JBool False \<rparr>))) = [JStr ''x-element'']
   \<and> filterCalls (fst (observe testLoader testPlatform (PlainElement testScope)
        (Some \<lparr> scanInit = JBool False, subtreeInit = JUndefined \<rparr>))) = []"
proof -
  have f: "filter' testLoader \<noteq> None" by (simp add: testLoader_def)
  note calls = observe_filter_calls [of testLoader testPlatform]
  have each: "filterCalls (handleElement testLoader testPlatform x)
     = (if eligible testPlatform (elementName (resolveNames x))
        then [JStr (elementName (resolveNames x))] else [])" for x
  proof -
    from calls [of "PlainElement testScope" JUndefined testScope x]
    have "filterCalls (handleElement testLoader testPlatform x)
       = (if filter' testLoader \<noteq> None \<and> eligible testPlatform (elementName (resolveNames x))
          then [JStr (elementName (resolveNames x))] else [])"
      by blast
    with f show ?thesis by simp
  qed
  from calls [of "PlainElement testScope" JUndefined testScope testScope]
  have dflt: "observe testLoader testPlatform (PlainElement testScope) None
       = observe testLoader testPlatform (PlainElement testScope)
           (Some \<lparr> scanInit = JBool True, subtreeInit = JBool True \<rparr>)"
    and deep: "filterCalls (fst (observe testLoader testPlatform (PlainElement testScope)
           (Some \<lparr> scanInit = JBool True, subtreeInit = JBool True \<rparr>)))
       = concat (map (\<lambda>x. filterCalls (handleElement testLoader testPlatform x))
           (preorder testScope))"
    and off: "filterCalls (fst (observe testLoader testPlatform (PlainElement testScope)
        (Some \<lparr> scanInit = JBool False, subtreeInit = JUndefined \<rparr>))) = []"
    by blast+
  from calls [of "PlainElement testScope" JUndefined "Element ''X-ELEMENT'' None []" testScope]
  have flat: "filterCalls (fst (observe testLoader testPlatform
        (PlainElement (Element ''X-ELEMENT'' None []))
        (Some \<lparr> scanInit = JBool True, subtreeInit = JBool False \<rparr>)))
      = filterCalls (handleElement testLoader testPlatform (Element ''X-ELEMENT'' None []))"
    by blast
  have walk: "concat (map (\<lambda>x. filterCalls (handleElement testLoader testPlatform x))
           (preorder testScope))
       = [JStr ''x-element'', JStr ''is-x-element'', JStr ''y-element'', JStr ''is-y-element'']"
    by (simp add: each testScope_def resolved_samples name_checks)
  have count: "length (preorder testScope) = 12"
    by (simp add: testScope_def)
  have one: "filterCalls (handleElement testLoader testPlatform (Element ''X-ELEMENT'' None []))
      = [JStr ''x-element'']"
    by (simp add: each resolved_samples name_checks)
  show ?thesis
    by (simp only: dflt deep walk count flat one off simp_thms)
qed

text \<open>
  C2 as stated fails: scanning a \<open>div\<close> target alone calls the filter no time, not
  once, and scanning a \<open>div\<close> that holds an \<open>x-element\<close> calls it once for two
  elements.
\<close>

theorem observe_filter_once_counterexample:
  "length (filterCalls (fst (observe testLoader testPlatform (PlainElement (Element ''DIV'' None []))
      (Some \<lparr> scanInit = JBool True, subtreeInit = JBool False \<rparr>)))) \<noteq> 1
   \<and> length (filterCalls (fst (observe testLoader testPlatform
        (PlainElement (Element ''DIV'' None [Element ''X-ELEMENT'' None []]))
        (Some \<lparr> scanInit = JBool True, subtreeInit = JBool True \<rparr>))))
       \<noteq> length (preorder (Element ''DIV'' None [Element ''X-ELEMENT'' None []]))
   \<and> filterCalls (fst (observe testLoader testPlatform (PlainElement (Element ''DIV'' None []))
      (Some \<lparr> scanInit = JBool True, subtreeInit = JBool False \<rparr>))) = []
   \<and> preorder (Element ''DIV'' None [Element ''X-ELEMENT'' None []])
       = [Element ''DIV'' None [Element ''X-ELEMENT'' None []], Element ''X-ELEMENT'' None []]
   \<and> filterCalls (fst (observe testLoader testPlatform
        (PlainElement (Element ''DIV'' None [Element ''X-ELEMENT'' None []]))
        (Some \<lparr> scanInit = JBool True, subtreeInit = JBool True \<rparr>))) = [JStr ''x-element'']"
proof -
  have f: "filter' testLoader \<noteq> None" by (simp add: testLoader_def)
  have each: "filterCalls (handleElement testLoader testPlatform e)
     = (if eligible testPlatform (elementName (resolveNames e))
        then [JStr (elementName (resolveNames e))] else [])" for e
    using filterCalls_handleElement [of testLoader testPlatform e] f by simp
  show ?thesis
    by (simp add: observe_trace resolveObserveOptions_def visited_def filterCalls_append each
        resolved_samples name_checks)
qed

text \<open>
  A form whose one control is an \<open>input\<close> with \<open>is="my-input"\<close>, next to an
  \<open>x-element\<close>: the scan calls the filter for the control only, with or without
  \<open>subtree\<close>.
\<close>

lemma observe_form_sample:
  "filterCalls (fst (observe testLoader testPlatform
      (IterableElement
         (Element ''FORM'' (Some ''my-form'')
            [Element ''INPUT'' (Some ''my-input'') [], Element ''X-ELEMENT'' None []])
         [Element ''INPUT'' (Some ''my-input'') []])
      (Some \<lparr> scanInit = JBool True, subtreeInit = sub \<rparr>))) = [JStr ''my-input'']"
proof -
  have f: "filter' testLoader \<noteq> None" by (simp add: testLoader_def)
  have n: "elementName (resolveNames (Element ''INPUT'' (Some ''my-input'') [])) = ''my-input''"
    unfolding resolveNames_def Let_def by (simp, code_simp)
  have ok: "eligible testPlatform ''my-input''"
    by (simp add: eligible_def isCustomElementName_def charCodeAt_def
        INVALID_CUSTOM_ELEMENT_NAMES_def testPlatform_def)
  show ?thesis
    by (simp add: observe_trace resolveObserveOptions_def visited_def Let_def
        filterCalls_handleElement f n ok)
qed

section \<open>Runs of the pipeline\<close>

lemma pipelineRuns_append: "pipelineRuns (xs @ ys) = pipelineRuns xs @ pipelineRuns ys"
  by (induction xs rule: pipelineRuns.induct) simp_all

lemma resolverCalls_append: "resolverCalls (xs @ ys) = resolverCalls xs @ resolverCalls ys"
  by (induction xs rule: resolverCalls.induct) simp_all

lemma load_thrown:
  "urlResolver this n = Inl e \<Longrightarrow> load this pf n = (Rejected e, [ResolverCalled n])"
  by (simp add: load_def)

lemma load_unparsed:
  "urlResolver this n = Inr (JStr s) \<Longrightarrow> parseURL pf s = Inl e \<Longrightarrow>
   load this pf n =
     (Rejected (unparsableUrl s n e), [ResolverCalled n])"
  by (simp add: load_def)

lemma load_mistyped:
  "urlResolver this n = Inr v \<Longrightarrow> (\<forall>s. v \<noteq> JStr s) \<Longrightarrow> (\<forall>u. v \<noteq> JUrl u) \<Longrightarrow>
   load this pf n =
     (Rejected (invalidUrl n), [ResolverCalled n])"
  by (cases v) (simp_all add: load_def)

text \<open>What the promise of \<open>#load\<close> becomes once the loader has been called.\<close>

lemma load_called:
  assumes "loaderCalls (snd (load this pf n)) = [href]"
  shows "load this pf n =
     ((case loader this href of
         Resolves v \<Rightarrow> Fulfilled v
       | Rejects e \<Rightarrow> Rejected (loadingFailed n href e)
       | Throws e \<Rightarrow> Rejected (loadingFailed n href e)
       | Never \<Rightarrow> Pending),
      [ResolverCalled n, LoaderCalled href])"
proof (cases "urlResolver this n")
  case (Inl e)
  with assms show ?thesis by (simp add: load_thrown)
next
  case (Inr v)
  show ?thesis
  proof (cases v)
    case (JStr s)
    show ?thesis
    proof (cases "parseURL pf s")
      case (Inl e)
      with assms Inr JStr show ?thesis by (simp add: load_unparsed)
    next
      case (Inr u)
      with assms \<open>urlResolver this n = Inr v\<close> JStr show ?thesis
        by (simp add: load_def)
    qed
  next
    case (JUrl u)
    with assms Inr show ?thesis by (simp add: load_def)
  qed (use assms Inr in \<open>simp_all add: load_def\<close>)
qed

lemma load_starts: "\<exists>rest. snd (load this pf n) = ResolverCalled n # rest"
  by (auto simp: load_def split: sum.splits jsval.splits)

lemma pipelineRuns_load: "pipelineRuns (snd (load this pf n)) = []"
  by (auto simp: load_def split: sum.splits jsval.splits)

lemma resolverCalls_load: "resolverCalls (snd (load this pf n)) = [n]"
  by (auto simp: load_def split: sum.splits jsval.splits)

lemma define_unfold:
  "define' this pf names =
     snd (load this pf (elementName names))
     @ [PipelineRun names
          (case fst (load this pf (elementName names)) of
             Fulfilled ctor \<Rightarrow>
               (case outcome (thenCallback pf names ctor) of
                  Rejected e \<Rightarrow> (thenCallback pf names ctor)
                                  \<lparr> outcome := Rejected (catchCallback names e) \<rparr>
                | _ \<Rightarrow> thenCallback pf names ctor)
           | Rejected e \<Rightarrow>
               \<lparr> warned = [], defined = [], outcome = Rejected (catchCallback names e) \<rparr>
           | Pending \<Rightarrow> \<lparr> warned = [], defined = [], outcome = Pending \<rparr>)]"
proof -
  obtain promise trace where l: "load this pf (elementName names) = (promise, trace)"
    by (cases "load this pf (elementName names)")
  then show ?thesis
    by (cases promise) (simp_all add: define'_def Let_def split: settled.splits)
qed

lemma define_fulfilled:
  assumes "fst (load this pf (elementName names)) = Fulfilled ctor"
  shows "pipelineRuns (define' this pf names) =
     [(names, (case outcome (thenCallback pf names ctor) of
                  Rejected e \<Rightarrow> (thenCallback pf names ctor)
                                  \<lparr> outcome := Rejected (catchCallback names e) \<rparr>
                | _ \<Rightarrow> thenCallback pf names ctor))]"
  by (simp add: define_unfold pipelineRuns_append pipelineRuns_load assms)

lemma define_rejected:
  assumes "fst (load this pf (elementName names)) = Rejected e"
  shows "pipelineRuns (define' this pf names) =
     [(names, \<lparr> warned = [], defined = [], outcome = Rejected (catchCallback names e) \<rparr>)]"
  by (simp add: define_unfold pipelineRuns_append pipelineRuns_load assms)

lemma handleElement_passed:
  "fst (shouldHandle this pf (JStr (elementName (resolveNames e)))) \<Longrightarrow>
   pipelineRuns (handleElement this pf e) = pipelineRuns (define' this pf (resolveNames e))"
proof -
  assume ok: "fst (shouldHandle this pf (JStr (elementName (resolveNames e))))"
  obtain b trace where g: "shouldHandle this pf (JStr (elementName (resolveNames e))) = (b, trace)"
    by (cases "shouldHandle this pf (JStr (elementName (resolveNames e)))")
  with ok have b by simp
  have "pipelineRuns trace = []"
    using shouldHandle_trace [of this pf "JStr (elementName (resolveNames e))"] g by auto
  with g \<open>b\<close> show ?thesis
    by (simp add: handleElement_def Let_def pipelineRuns_append)
qed

lemma carries_quoted: "carries (JsError k (a @ quote s @ b) c) s"
proof -
  have "a @ quote s @ b = (a @ [CHR 0x27]) @ s @ ([CHR 0x27] @ b)"
    by (simp add: quote_def)
  then have "sublist s (a @ quote s @ b)"
    by (metis sublist_appendI)
  then show ?thesis by (cases c) (simp_all add: carries_def)
qed

lemma carries_cause: "carries e s \<Longrightarrow> carries (JsError k m (Some e)) s"
  by (simp add: carries_def)


lemma test_loads:
  "load testLoader testPlatform ''x-element''
     = (Fulfilled JNull, [ResolverCalled ''x-element'', LoaderCalled ''http://localhost/x-element.js''])"
  "load testLoader testPlatform ''y-element''
     = (Fulfilled (JCtor 7), [ResolverCalled ''y-element'', LoaderCalled ''http://localhost/y-element.js''])"
  "load testLoader testPlatform ''z-element''
     = (Rejected (loadingFailed ''z-element'' ''http://localhost/z-element.js''
          (JsError Thrown ''not found'' None)),
        [ResolverCalled ''z-element'', LoaderCalled ''http://localhost/z-element.js''])"
  by (simp_all add: load_def testLoader_def testPlatform_def)

text \<open>
  C4. When \<open>#load\<close> resolves to an implementation other than null, \<open>#define\<close> calls
  \<open>customElements.define\<close> once, with \<open>elementName\<close>, that implementation, and an
  \<open>extends\<close> option equal to \<open>tagName\<close> exactly when the resolved names hold an
  \<open>isAttr\<close>, which they do exactly when the element has an \<open>is\<close> attribute; without
  it no \<open>extends\<close> is passed and nothing is logged.
\<close>

theorem define_registers:
  assumes "fst (load this pf (elementName names)) = Fulfilled ctor" and "ctor \<noteq> JNull"
  shows "pipelineRuns (define' this pf names) =
      [(names,
        \<lparr> warned = [],
          defined = [(elementName names, ctor,
                      if isAttr names = None then None else Some (tagName names))],
          outcome = (case customElementsDefine pf (elementName names) ctor
                            (if isAttr names = None then None else Some (tagName names)) of
                       None \<Rightarrow> Fulfilled ()
                     | Some thrown \<Rightarrow> Rejected (catchCallback names thrown)) \<rparr>)]
    \<and> (isAttr (resolveNames e) = None \<longleftrightarrow> getAttributeIs e = None)
    \<and> tagName (resolveNames e) = toLowerCase (tagNameOf e)"
proof -
  have ext: "(case isAttr names of Some v \<Rightarrow> Some (tagName names) | None \<Rightarrow> None)
      = (if isAttr names = None then None else Some (tagName names))"
    by (cases "isAttr names") simp_all
  have "pipelineRuns (define' this pf names) =
      [(names,
        \<lparr> warned = [],
          defined = [(elementName names, ctor,
                      if isAttr names = None then None else Some (tagName names))],
          outcome = (case customElementsDefine pf (elementName names) ctor
                            (if isAttr names = None then None else Some (tagName names)) of
                       None \<Rightarrow> Fulfilled ()
                     | Some thrown \<Rightarrow> Rejected (catchCallback names thrown)) \<rparr>)]"
    using assms(2)
    by (simp add: define_fulfilled [OF assms(1)] thenCallback_def Let_def ext
        split: option.splits)
  moreover have "isAttr (resolveNames e) = None \<longleftrightarrow> getAttributeIs e = None"
    by (cases "getAttributeIs e") (simp_all add: resolveNames_def Let_def)
  moreover have "tagName (resolveNames e) = toLowerCase (tagNameOf e)"
    by (cases "getAttributeIs e") (simp_all add: resolveNames_def Let_def)
  ultimately show ?thesis by blast
qed

theorem define_registers_witness:
  "fst (load testLoader testPlatform ''y-element'') = Fulfilled (JCtor 7)
   \<and> JCtor 7 \<noteq> JNull
   \<and> pipelineRuns (define' testLoader testPlatform
        (resolveNames (Element ''DIV'' (Some ''y-element'') [])))
       = [(\<lparr> elementName = ''y-element'', tagName = ''div'', isAttr = Some ''y-element'' \<rparr>,
           \<lparr> warned = [], defined = [(''y-element'', JCtor 7, Some ''div'')],
             outcome = Fulfilled () \<rparr>)]
   \<and> pipelineRuns (define' testLoader testPlatform
        (resolveNames (Element ''Y-ELEMENT'' None [])))
       = [(\<lparr> elementName = ''y-element'', tagName = ''y-element'', isAttr = None \<rparr>,
           \<lparr> warned = [], defined = [(''y-element'', JCtor 7, None)],
             outcome = Fulfilled () \<rparr>)]"
proof -
  have names: "resolveNames (Element ''DIV'' (Some ''y-element'') [])
      = \<lparr> elementName = ''y-element'', tagName = ''div'', isAttr = Some ''y-element'' \<rparr>"
    "resolveNames (Element ''Y-ELEMENT'' None [])
      = \<lparr> elementName = ''y-element'', tagName = ''y-element'', isAttr = None \<rparr>"
    unfolding resolveNames_def Let_def by (simp_all, code_simp+)
  have l: "fst (load testLoader testPlatform ''y-element'') = Fulfilled (JCtor 7)"
    by (simp add: test_loads)
  have ok: "customElementsDefine testPlatform ''y-element'' c x = None" for c x
    by (simp add: testPlatform_def)
  from define_registers [of testLoader testPlatform
      "\<lparr> elementName = ''y-element'', tagName = ''div'', isAttr = Some ''y-element'' \<rparr>"
      "JCtor 7" "Element ''DIV'' None []"]
    define_registers [of testLoader testPlatform
      "\<lparr> elementName = ''y-element'', tagName = ''y-element'', isAttr = None \<rparr>"
      "JCtor 7" "Element ''DIV'' None []"] l
  show ?thesis by (simp add: names ok)
qed

text \<open>
  C7. For an element whose name passes the gate and for which the loader, called with
  the resolved URL, resolves to null: \<open>customElements.define\<close> is not called, one warning
  is logged, and the promise of the run is fulfilled, so no error is raised.
\<close>

theorem define_skips_null:
  assumes "fst (shouldHandle this pf (JStr (elementName (resolveNames e))))"
    and "loaderCalls (snd (load this pf (elementName (resolveNames e)))) = [href]"
    and "loader this href = Resolves JNull"
  shows "pipelineRuns (handleElement this pf e) =
      [(resolveNames e,
        \<lparr> warned = [''Custom-Element constructor for '' @ quote (elementName (resolveNames e))
                       @ '' is null, skipping definition!''],
          defined = [],
          outcome = Fulfilled () \<rparr>)]"
proof -
  from assms(2,3) have "fst (load this pf (elementName (resolveNames e))) = Fulfilled JNull"
    by (simp add: load_called)
  then have "pipelineRuns (define' this pf (resolveNames e)) =
      [(resolveNames e,
        \<lparr> warned = [''Custom-Element constructor for '' @ quote (elementName (resolveNames e))
                       @ '' is null, skipping definition!''],
          defined = [],
          outcome = Fulfilled () \<rparr>)]"
    by (simp add: define_fulfilled thenCallback_def Let_def)
  with handleElement_passed [OF assms(1)] show ?thesis by simp
qed

theorem define_skips_null_witness:
  "fst (shouldHandle testLoader testPlatform (JStr ''x-element''))
   \<and> loaderCalls (snd (load testLoader testPlatform ''x-element''))
       = [''http://localhost/x-element.js'']
   \<and> loader testLoader ''http://localhost/x-element.js'' = Resolves JNull
   \<and> pipelineRuns (handleElement testLoader testPlatform (Element ''X-ELEMENT'' None []))
       = [(\<lparr> elementName = ''x-element'', tagName = ''x-element'', isAttr = None \<rparr>,
           \<lparr> warned = [''Custom-Element constructor for '' @ quote ''x-element''
                          @ '' is null, skipping definition!''],
             defined = [], outcome = Fulfilled () \<rparr>)]"
proof -
  have names: "resolveNames (Element ''X-ELEMENT'' None [])
      = \<lparr> elementName = ''x-element'', tagName = ''x-element'', isAttr = None \<rparr>"
    unfolding resolveNames_def Let_def by (simp, code_simp)
  have gate: "fst (shouldHandle testLoader testPlatform (JStr ''x-element''))"
    by (simp add: shouldHandle_def isRegistered_def customElementsGet_def testPlatform_def
        testLoader_def isCustomElementName_def charCodeAt_def INVALID_CUSTOM_ELEMENT_NAMES_def)
  have called: "loaderCalls (snd (load testLoader testPlatform ''x-element''))
       = [''http://localhost/x-element.js'']"
    by (simp add: test_loads)
  have null: "loader testLoader ''http://localhost/x-element.js'' = Resolves JNull"
    by (simp add: testLoader_def)
  from define_skips_null [of testLoader testPlatform "Element ''X-ELEMENT'' None []"
      "''http://localhost/x-element.js''"] gate called null
  show ?thesis by (simp add: names)
qed

section \<open>Mutation records\<close>

lemma loaderCalls_append: "loaderCalls (xs @ ys) = loaderCalls xs @ loaderCalls ys"
  by (induction xs rule: loaderCalls.induct) simp_all

lemma resolverCalls_concat:
  "resolverCalls (concat (map f xs)) = concat (map (\<lambda>x. resolverCalls (f x)) xs)"
  by (induction xs) (simp_all add: resolverCalls_append)

lemma pipelineRuns_concat:
  "pipelineRuns (concat (map f xs)) = concat (map (\<lambda>x. pipelineRuns (f x)) xs)"
  by (induction xs) (simp_all add: pipelineRuns_append)

lemma concat_map_if: "concat (map (\<lambda>x. if P x then [f x] else []) xs) = map f (filter P xs)"
  by (induction xs) simp_all

lemma gate_trace_quiet:
  "resolverCalls (snd (shouldHandle this pf n)) = []"
  "loaderCalls (snd (shouldHandle this pf n)) = []"
  "pipelineRuns (snd (shouldHandle this pf n)) = []"
  by (simp_all add: shouldHandle_trace)

lemma handleElement_unfold:
  "handleElement this pf e =
     snd (shouldHandle this pf (JStr (elementName (resolveNames e))))
     @ (if passes this pf e then define' this pf (resolveNames e) else [])"
  by (cases "shouldHandle this pf (JStr (elementName (resolveNames e)))")
    (simp add: handleElement_def Let_def passes_def)

lemma define_calls:
  "resolverCalls (define' this pf names) = [elementName names]"
  "map fst (pipelineRuns (define' this pf names)) = [names]"
  "loaderCalls (define' this pf names) = loaderCalls (snd (load this pf (elementName names)))"
  by (simp_all add: define_unfold resolverCalls_append pipelineRuns_append loaderCalls_append
      resolverCalls_load pipelineRuns_load)

lemma handleElement_piped:
  "resolverCalls (handleElement this pf e)
     = (if passes this pf e then [elementName (resolveNames e)] else [])"
  "map fst (pipelineRuns (handleElement this pf e))
     = (if passes this pf e then [resolveNames e] else [])"
  "pipelineRuns (handleElement this pf e)
     = (if passes this pf e then pipelineRuns (define' this pf (resolveNames e)) else [])"
  "loaderCalls (handleElement this pf e)
     = (if passes this pf e then loaderCalls (snd (load this pf (elementName (resolveNames e))))
        else [])"
  by (simp_all add: handleElement_unfold resolverCalls_append pipelineRuns_append
      loaderCalls_append gate_trace_quiet define_calls)

lemma dispatch_elementOf: "dispatch this pf ev = handleElement this pf (elementOf ev)"
  by (cases ev) (simp_all add: onElementAdded_def onIsAttributeChanged_def)

text \<open>
  C9. The mutation callback handles the records of a batch in the order delivered. A
  record of type \<open>attributes\<close> gives one role-attribute-changed event, for its target;
  any other record gives one element-added event for each added node that is an element,
  in order, and none for the other nodes. Each event is resolved, gated and piped for
  that one element: what is done does not depend on the element's children; when the
  element's name passes the gate, the URL resolver is called once, with that name, and
  there is one run of \<open>#define\<close>, for the names resolved; when it does not pass, neither
  the resolver nor the loader is called and there is no run. Over the batch, the resolver
  calls and the runs are those of the events that pass, one each, in the order of the
  events.
\<close>

theorem mutationCallback_events:
  "mutationCallback this pf records = concat (map (handleRecord this pf) records)
   \<and> mutationCallback this pf (before @ after)
       = mutationCallback this pf before @ mutationCallback this pf after
   \<and> handleRecord this pf r = concat (map (dispatch this pf) (eventsOf r))
   \<and> mutationCallback this pf records
       = concat (map (dispatch this pf) (concat (map eventsOf records)))
   \<and> (recordType r = ''attributes'' \<longrightarrow> eventsOf r = [RoleAttributeChanged (target r)])
   \<and> (recordType r \<noteq> ''attributes'' \<longrightarrow>
        eventsOf r = map ElementAdded (addedElements (addedNodes r)))
   \<and> map ElementNode (addedElements ns) = filter (\<lambda>n. nodeType n = ELEMENT_NODE) ns
   \<and> dispatch this pf (ElementAdded (Element t a cs)) = handleElement this pf (Element t a [])
   \<and> dispatch this pf (RoleAttributeChanged (Element t a cs))
       = handleElement this pf (Element t a [])
   \<and> handleElement this pf x
       = snd (shouldHandle this pf (JStr (elementName (resolveNames x))))
         @ (if passes this pf x then define' this pf (resolveNames x) else [])
   \<and> (passes this pf x \<longrightarrow>
        resolverCalls (handleElement this pf x) = [elementName (resolveNames x)]
        \<and> map fst (pipelineRuns (handleElement this pf x)) = [resolveNames x]
        \<and> loaderCalls (handleElement this pf x)
            = loaderCalls (snd (load this pf (elementName (resolveNames x)))))
   \<and> (\<not> passes this pf x \<longrightarrow>
        resolverCalls (handleElement this pf x) = []
        \<and> loaderCalls (handleElement this pf x) = []
        \<and> pipelineRuns (handleElement this pf x) = [])
   \<and> resolverCalls (mutationCallback this pf records)
       = map (\<lambda>x. elementName (resolveNames x))
           (filter (passes this pf) (map elementOf (concat (map eventsOf records))))
   \<and> map fst (pipelineRuns (mutationCallback this pf records))
       = map resolveNames
           (filter (passes this pf) (map elementOf (concat (map eventsOf records))))"
proof -
  have order: "mutationCallback this pf xs = concat (map (handleRecord this pf) xs)" for xs
    by (rule mutationCallback_records)
  have split: "mutationCallback this pf (before @ after)
       = mutationCallback this pf before @ mutationCallback this pf after"
    by (simp add: order)
  have body: "handleRecord this pf = (\<lambda>x. concat (map (dispatch this pf) (eventsOf x)))"
    by (rule ext) (rule handleRecord_events)
  have flat: "mutationCallback this pf records
       = concat (map (dispatch this pf) (concat (map eventsOf records)))"
    by (simp add: order body concat_map_concat)
  have attr: "recordType r = ''attributes'' \<longrightarrow> eventsOf r = [RoleAttributeChanged (target r)]"
    by (simp add: eventsOf_def)
  have added: "recordType r \<noteq> ''attributes'' \<longrightarrow>
        eventsOf r = map ElementAdded (addedElements (addedNodes r))"
    by (simp add: eventsOf_def)
  have single: "dispatch this pf (ElementAdded (Element t a cs)) = handleElement this pf (Element t a [])"
    "dispatch this pf (RoleAttributeChanged (Element t a cs)) = handleElement this pf (Element t a [])"
    using handleElement_children [of this pf t a cs]
    by (simp_all add: onElementAdded_def onIsAttributeChanged_def)
  have piped: "passes this pf x \<longrightarrow>
        resolverCalls (handleElement this pf x) = [elementName (resolveNames x)]
        \<and> map fst (pipelineRuns (handleElement this pf x)) = [resolveNames x]
        \<and> loaderCalls (handleElement this pf x)
            = loaderCalls (snd (load this pf (elementName (resolveNames x))))"
    by (simp add: handleElement_piped(1,2,4))
  have dropped: "\<not> passes this pf x \<longrightarrow>
        resolverCalls (handleElement this pf x) = []
        \<and> loaderCalls (handleElement this pf x) = []
        \<and> pipelineRuns (handleElement this pf x) = []"
    by (simp add: handleElement_piped)
  define es where "es = map elementOf (concat (map eventsOf records))"
  have flat': "mutationCallback this pf records = concat (map (handleElement this pf) es)"
  proof -
    have "dispatch this pf = (\<lambda>ev. handleElement this pf (elementOf ev))"
      by (rule ext) (rule dispatch_elementOf)
    then show ?thesis by (simp add: flat o_def es_def)
  qed
  have "resolverCalls (concat (map (handleElement this pf) es))
      = map (\<lambda>x. elementName (resolveNames x)) (filter (passes this pf) es)"
    by (simp only: resolverCalls_concat handleElement_piped(1) concat_map_if)
  then have resolved: "resolverCalls (mutationCallback this pf records)
       = map (\<lambda>x. elementName (resolveNames x))
           (filter (passes this pf) (map elementOf (concat (map eventsOf records))))"
    by (simp only: flat' es_def)
  have "map fst (pipelineRuns (concat (map (handleElement this pf) es)))
      = concat (map (\<lambda>x. map fst (pipelineRuns (handleElement this pf x))) es)"
    by (induction es) (simp_all add: pipelineRuns_append)
  also have "\<dots> = map resolveNames (filter (passes this pf) es)"
    by (simp only: handleElement_piped(2) concat_map_if)
  finally have runs: "map fst (pipelineRuns (mutationCallback this pf records))
       = map resolveNames
           (filter (passes this pf) (map elementOf (concat (map eventsOf records))))"
    by (simp only: flat' es_def)
  from order [of records] split handleRecord_events [of this pf r] flat attr added
    addedElements_filter [of ns] single handleElement_unfold [of this pf x] piped dropped
    resolved runs
  show ?thesis by blast
qed


lemma test_handled:
  "handleElement testLoader testPlatform (Element ''X-ELEMENT'' None [])
     = [FilterCalled (JStr ''x-element''), ResolverCalled ''x-element'',
        LoaderCalled ''http://localhost/x-element.js'',
        PipelineRun xElement
          \<lparr> warned = [''Custom-Element constructor for '' @ quote ''x-element''
                         @ '' is null, skipping definition!''],
            defined = [], outcome = Fulfilled () \<rparr>]"
  "handleElement testLoader testPlatform (Element ''DIV'' (Some ''is-z-element'') [])
     = [FilterCalled (JStr ''is-z-element''), ResolverCalled ''is-z-element'',
        LoaderCalled ''http://localhost/is-z-element.js'',
        PipelineRun zElement
          \<lparr> warned = [], defined = [],
            outcome = Rejected (catchCallback zElement
              (loadingFailed ''is-z-element'' ''http://localhost/is-z-element.js''
                 (JsError Thrown ''not found'' None))) \<rparr>]"
proof -
  have names: "resolveNames (Element ''X-ELEMENT'' None []) = xElement"
    "resolveNames (Element ''DIV'' (Some ''is-z-element'') []) = zElement"
    unfolding resolveNames_def Let_def xElement_def zElement_def by (simp_all, code_simp+)
  have gates: "shouldHandle testLoader testPlatform (JStr ''x-element'')
      = (True, [FilterCalled (JStr ''x-element'')])"
    "shouldHandle testLoader testPlatform (JStr ''is-z-element'')
      = (True, [FilterCalled (JStr ''is-z-element'')])"
    by (simp_all add: shouldHandle_def isRegistered_def customElementsGet_def testPlatform_def
        testLoader_def isCustomElementName_def charCodeAt_def INVALID_CUSTOM_ELEMENT_NAMES_def)
  have loads: "load testLoader testPlatform ''x-element''
      = (Fulfilled JNull, [ResolverCalled ''x-element'', LoaderCalled ''http://localhost/x-element.js''])"
    "load testLoader testPlatform ''is-z-element''
      = (Rejected (loadingFailed ''is-z-element'' ''http://localhost/is-z-element.js''
           (JsError Thrown ''not found'' None)),
         [ResolverCalled ''is-z-element'', LoaderCalled ''http://localhost/is-z-element.js''])"
    by (simp_all add: load_def testLoader_def testPlatform_def)
  have n: "elementName xElement = ''x-element''" "elementName zElement = ''is-z-element''"
    by (simp_all add: xElement_def zElement_def)
  show "handleElement testLoader testPlatform (Element ''X-ELEMENT'' None [])
     = [FilterCalled (JStr ''x-element''), ResolverCalled ''x-element'',
        LoaderCalled ''http://localhost/x-element.js'',
        PipelineRun xElement
          \<lparr> warned = [''Custom-Element constructor for '' @ quote ''x-element''
                         @ '' is null, skipping definition!''],
            defined = [], outcome = Fulfilled () \<rparr>]"
    by (simp add: handleElement_def Let_def names n gates define'_def loads thenCallback_def)
  show "handleElement testLoader testPlatform (Element ''DIV'' (Some ''is-z-element'') [])
     = [FilterCalled (JStr ''is-z-element''), ResolverCalled ''is-z-element'',
        LoaderCalled ''http://localhost/is-z-element.js'',
        PipelineRun zElement
          \<lparr> warned = [], defined = [],
            outcome = Rejected (catchCallback zElement
              (loadingFailed ''is-z-element'' ''http://localhost/is-z-element.js''
                 (JsError Thrown ''not found'' None))) \<rparr>]"
    by (simp add: handleElement_def Let_def names n gates define'_def loads)
qed

theorem mutationCallback_events_witness:
  "recordType (testBatch ! 1) = ''attributes''
   \<and> recordType (testBatch ! 0) \<noteq> ''attributes''
   \<and> eventsOf (testBatch ! 1) = [RoleAttributeChanged (Element ''DIV'' (Some ''is-z-element'') [])]
   \<and> eventsOf (testBatch ! 0)
       = [ElementAdded (Element ''X-ELEMENT'' None [Element ''Y-ELEMENT'' None []])]
   \<and> mutationCallback testLoader testPlatform testBatch
       = handleElement testLoader testPlatform (Element ''X-ELEMENT'' None [])
         @ handleElement testLoader testPlatform (Element ''DIV'' (Some ''is-z-element'') [])
   \<and> mutationCallback testLoader testPlatform testBatch
       = [FilterCalled (JStr ''x-element''), ResolverCalled ''x-element'',
          LoaderCalled ''http://localhost/x-element.js'',
          PipelineRun xElement
            \<lparr> warned = [''Custom-Element constructor for '' @ quote ''x-element''
                           @ '' is null, skipping definition!''],
              defined = [], outcome = Fulfilled () \<rparr>,
          FilterCalled (JStr ''is-z-element''), ResolverCalled ''is-z-element'',
          LoaderCalled ''http://localhost/is-z-element.js'',
          PipelineRun zElement
            \<lparr> warned = [], defined = [],
              outcome = Rejected (catchCallback zElement
                (loadingFailed ''is-z-element'' ''http://localhost/is-z-element.js''
                   (JsError Thrown ''not found'' None))) \<rparr>]
   \<and> passes testLoader testPlatform (Element ''X-ELEMENT'' None [])
   \<and> resolverCalls (handleElement testLoader testPlatform (Element ''X-ELEMENT'' None []))
       = [''x-element'']
   \<and> map fst (pipelineRuns (handleElement testLoader testPlatform (Element ''X-ELEMENT'' None [])))
       = [xElement]
   \<and> \<not> passes testLoader testPlatform (Element ''DIV'' None [])
   \<and> pipelineRuns (handleElement testLoader testPlatform (Element ''DIV'' None [])) = []
   \<and> resolverCalls (mutationCallback testLoader testPlatform testBatch)
       = [''x-element'', ''is-z-element'']"
proof -
  have t1: "recordType (testBatch ! 1) = ''attributes''"
    and t0: "recordType (testBatch ! 0) \<noteq> ''attributes''"
    by (simp_all add: testBatch_def)
  note ev = mutationCallback_events [of testLoader testPlatform testBatch "[]" "[]"]
  from ev [of "testBatch ! 1" "[]" "[]" None "[]" "Element ''DIV'' None []"] t1
  have e1: "eventsOf (testBatch ! 1) = [RoleAttributeChanged (target (testBatch ! 1))]"
    by blast
  have div: "\<not> passes testLoader testPlatform (Element ''DIV'' None [])"
    by (simp add: passes_def shouldHandle_fst resolved_samples isCustomElementName_def)
  from ev [of "testBatch ! 1" "[]" "[]" None "[]" "Element ''DIV'' None []"] div
  have quiet: "pipelineRuns (handleElement testLoader testPlatform (Element ''DIV'' None [])) = []"
    by blast
  from ev [of "testBatch ! 0" "[]" "''X-ELEMENT''" None "[Element ''Y-ELEMENT'' None []]"
      "Element ''X-ELEMENT'' None []"] t0
  have e0: "eventsOf (testBatch ! 0) = map ElementAdded (addedElements (addedNodes (testBatch ! 0)))"
    and flat: "mutationCallback testLoader testPlatform testBatch
       = concat (map (dispatch testLoader testPlatform) (concat (map eventsOf testBatch)))"
    and x: "dispatch testLoader testPlatform
        (ElementAdded (Element ''X-ELEMENT'' None [Element ''Y-ELEMENT'' None []]))
      = handleElement testLoader testPlatform (Element ''X-ELEMENT'' None [])"
    and px: "passes testLoader testPlatform (Element ''X-ELEMENT'' None []) \<longrightarrow>
        resolverCalls (handleElement testLoader testPlatform (Element ''X-ELEMENT'' None []))
          = [elementName (resolveNames (Element ''X-ELEMENT'' None []))]
        \<and> map fst (pipelineRuns (handleElement testLoader testPlatform
              (Element ''X-ELEMENT'' None [])))
          = [resolveNames (Element ''X-ELEMENT'' None [])]
        \<and> loaderCalls (handleElement testLoader testPlatform (Element ''X-ELEMENT'' None []))
            = loaderCalls (snd (load testLoader testPlatform
                (elementName (resolveNames (Element ''X-ELEMENT'' None [])))))"
    by blast+
  have pass: "passes testLoader testPlatform (Element ''X-ELEMENT'' None [])"
    by (simp add: passes_def shouldHandle_fst resolved_samples testLoader_def testPlatform_def
        isCustomElementName_def charCodeAt_def INVALID_CUSTOM_ELEMENT_NAMES_def)
  have nx: "resolveNames (Element ''X-ELEMENT'' None []) = xElement"
    unfolding resolveNames_def Let_def xElement_def by (simp, code_simp)
  from px pass nx
  have rx: "resolverCalls (handleElement testLoader testPlatform (Element ''X-ELEMENT'' None []))
       = [''x-element'']"
    and mx: "map fst (pipelineRuns (handleElement testLoader testPlatform
        (Element ''X-ELEMENT'' None []))) = [xElement]"
    by (simp_all add: xElement_def)
  have e1': "eventsOf (testBatch ! 1) = [RoleAttributeChanged (Element ''DIV'' (Some ''is-z-element'') [])]"
    using e1 by (simp add: testBatch_def)
  have e0': "eventsOf (testBatch ! 0)
       = [ElementAdded (Element ''X-ELEMENT'' None [Element ''Y-ELEMENT'' None []])]"
    using e0 by (simp add: testBatch_def)
  have both: "map eventsOf testBatch = [eventsOf (testBatch ! 0), eventsOf (testBatch ! 1)]"
    by (simp add: testBatch_def)
  have run: "mutationCallback testLoader testPlatform testBatch
       = handleElement testLoader testPlatform (Element ''X-ELEMENT'' None [])
         @ handleElement testLoader testPlatform (Element ''DIV'' (Some ''is-z-element'') [])"
  proof -
    have evs: "concat (map eventsOf testBatch)
        = [ElementAdded (Element ''X-ELEMENT'' None [Element ''Y-ELEMENT'' None []]),
           RoleAttributeChanged (Element ''DIV'' (Some ''is-z-element'') [])]"
      by (simp only: both e0' e1' concat.simps append.simps)
    show ?thesis
      by (simp only: flat evs list.map concat.simps append_Nil2 x dispatch.simps(2)
          onIsAttributeChanged_def)
  qed
  have whole: "mutationCallback testLoader testPlatform testBatch
       = [FilterCalled (JStr ''x-element''), ResolverCalled ''x-element'',
          LoaderCalled ''http://localhost/x-element.js'',
          PipelineRun xElement
            \<lparr> warned = [''Custom-Element constructor for '' @ quote ''x-element''
                           @ '' is null, skipping definition!''],
              defined = [], outcome = Fulfilled () \<rparr>,
          FilterCalled (JStr ''is-z-element''), ResolverCalled ''is-z-element'',
          LoaderCalled ''http://localhost/is-z-element.js'',
          PipelineRun zElement
            \<lparr> warned = [], defined = [],
              outcome = Rejected (catchCallback zElement
                (loadingFailed ''is-z-element'' ''http://localhost/is-z-element.js''
                   (JsError Thrown ''not found'' None))) \<rparr>]"
    by (simp only: run test_handled append.simps)
  have calls: "resolverCalls (mutationCallback testLoader testPlatform testBatch)
       = [''x-element'', ''is-z-element'']"
    by (simp only: whole resolverCalls.simps)
  from t1 t0 e1' e0' run whole pass rx mx div quiet calls show ?thesis by blast
qed

section \<open>Failures of the pipeline\<close>

lemma define_starts: "\<exists>rest. define' this pf names = ResolverCalled (elementName names) # rest"
proof -
  obtain rest where "snd (load this pf (elementName names)) = ResolverCalled (elementName names) # rest"
    using load_starts by blast
  then show ?thesis by (simp add: define_unfold)
qed

text \<open>
  C6, as amended. A run of \<open>#define\<close> starts with the call of the URL resolver. A string
  that does not parse as a URL makes \<open>#load\<close> reject with a SyntaxError that carries the
  string and the name, with the parser's error as cause. A result that is neither a string
  nor a URL makes it reject with a TypeError that carries the name. A loader that rejects
  or throws, called with the resolved URL, makes it reject with an error that carries the
  name and the URL, with the loader's error as cause. Whatever \<open>#load\<close> rejects with,
  the promise of the run is rejected with an error that carries the name, has the rejection
  as cause and carries what the cause carries: the failure is not swallowed.
\<close>

theorem load_failures:
  "(\<exists>rest. define' this pf names = ResolverCalled (elementName names) # rest)
   \<and> (urlResolver this n = Inr (JStr s) \<and> parseURL pf s = Inl e \<longrightarrow>
        load this pf n = (Rejected (unparsableUrl s n e), [ResolverCalled n]))
   \<and> kind (unparsableUrl s n e) = SyntaxError \<and> cause (unparsableUrl s n e) = Some e
   \<and> carries (unparsableUrl s n e) n \<and> carries (unparsableUrl s n e) s
   \<and> (urlResolver this n = Inr v \<and> (\<forall>s. v \<noteq> JStr s) \<and> (\<forall>u. v \<noteq> JUrl u) \<longrightarrow>
        load this pf n = (Rejected (invalidUrl n), [ResolverCalled n]))
   \<and> kind (invalidUrl n) = TypeError \<and> carries (invalidUrl n) n
   \<and> (loaderCalls (snd (load this pf n)) = [href]
        \<and> (loader this href = Rejects e \<or> loader this href = Throws e) \<longrightarrow>
        fst (load this pf n) = Rejected (loadingFailed n href e))
   \<and> cause (loadingFailed n href e) = Some e
   \<and> carries (loadingFailed n href e) n \<and> carries (loadingFailed n href e) href
   \<and> (fst (load this pf (elementName names)) = Rejected e \<longrightarrow>
        pipelineRuns (define' this pf names)
          = [(names, \<lparr> warned = [], defined = [],
                       outcome = Rejected (catchCallback names e) \<rparr>)])
   \<and> cause (catchCallback names e) = Some e
   \<and> carries (catchCallback names e) (elementName names)
   \<and> (carries e x \<longrightarrow> carries (catchCallback names e) x)"
proof -
  have unparsed: "urlResolver this n = Inr (JStr s) \<and> parseURL pf s = Inl e \<longrightarrow>
        load this pf n = (Rejected (unparsableUrl s n e), [ResolverCalled n])"
    by (simp add: load_unparsed)
  have unparsed_error: "kind (unparsableUrl s n e) = SyntaxError"
    "cause (unparsableUrl s n e) = Some e"
    by (simp_all add: unparsableUrl_def)
  have unparsed_name: "carries (unparsableUrl s n e) n"
    unfolding unparsableUrl_def
    using carries_quoted [of SyntaxError "''Cannot parse provided URL '' @ quote s @ '' for ''" n "''.''" "Some e"]
    by simp
  have unparsed_url: "carries (unparsableUrl s n e) s"
    unfolding unparsableUrl_def by (rule carries_quoted)
  have mistyped: "urlResolver this n = Inr v \<and> (\<forall>s. v \<noteq> JStr s) \<and> (\<forall>u. v \<noteq> JUrl u) \<longrightarrow>
        load this pf n = (Rejected (invalidUrl n), [ResolverCalled n])"
    by (simp add: load_mistyped)
  have mistyped_error: "kind (invalidUrl n) = TypeError"
    by (simp add: invalidUrl_def)
  have mistyped_name: "carries (invalidUrl n) n"
    unfolding invalidUrl_def by (rule carries_quoted)
  have rejected: "loaderCalls (snd (load this pf n)) = [href]
        \<and> (loader this href = Rejects e \<or> loader this href = Throws e) \<longrightarrow>
        fst (load this pf n) = Rejected (loadingFailed n href e)"
    by (auto simp: load_called)
  have rejected_cause: "cause (loadingFailed n href e) = Some e"
    by (simp add: loadingFailed_def)
  have rejected_name: "carries (loadingFailed n href e) n"
    unfolding loadingFailed_def by (rule carries_quoted)
  have rejected_url: "carries (loadingFailed n href e) href"
    unfolding loadingFailed_def
    using carries_quoted [of Error "''Error loading constructor for custom-element '' @ quote n @ '' from ''" href "''.''" "Some e"]
    by simp
  have surfaced: "fst (load this pf (elementName names)) = Rejected e \<longrightarrow>
        pipelineRuns (define' this pf names)
          = [(names, \<lparr> warned = [], defined = [],
                       outcome = Rejected (catchCallback names e) \<rparr>)]"
    by (simp add: define_rejected)
  have wrapped: "cause (catchCallback names e) = Some e"
    by (simp add: catchCallback_def)
  have wrapped_name: "carries (catchCallback names e) (elementName names)"
    unfolding catchCallback_def by (rule carries_quoted)
  have kept: "carries e x \<longrightarrow> carries (catchCallback names e) x"
    unfolding catchCallback_def by (simp add: carries_cause)
  from define_starts [of this pf names] unparsed unparsed_error unparsed_name unparsed_url mistyped
    mistyped_error mistyped_name rejected rejected_cause rejected_name rejected_url surfaced wrapped
    wrapped_name kept
  show ?thesis by blast
qed

theorem load_failures_witness:
  "urlResolver (answering (JStr [])) ''x-y'' = Inr (JStr [])
   \<and> parseURL testPlatform [] = Inl (JsError TypeError ''Invalid URL'' None)
   \<and> load (answering (JStr [])) testPlatform ''x-y''
       = (Rejected (unparsableUrl [] ''x-y'' (JsError TypeError ''Invalid URL'' None)),
          [ResolverCalled ''x-y''])
   \<and> urlResolver (answering JUndefined) ''x-y'' = Inr JUndefined
   \<and> load (answering JUndefined) testPlatform ''x-y''
       = (Rejected (invalidUrl ''x-y''), [ResolverCalled ''x-y''])
   \<and> loaderCalls (snd (load testLoader testPlatform ''z-element''))
       = [''http://localhost/z-element.js'']
   \<and> loader testLoader ''http://localhost/z-element.js''
       = Rejects (JsError Thrown ''not found'' None)
   \<and> fst (load testLoader testPlatform ''z-element'')
       = Rejected (loadingFailed ''z-element'' ''http://localhost/z-element.js''
           (JsError Thrown ''not found'' None))
   \<and> pipelineRuns (define' (answering JUndefined) testPlatform xy)
       = [(xy, \<lparr> warned = [], defined = [],
                 outcome = Rejected (catchCallback xy (invalidUrl ''x-y'')) \<rparr>)]
   \<and> carries (invalidUrl ''x-y'') ''x-y''
   \<and> carries (catchCallback xy (invalidUrl ''x-y'')) ''x-y''"
proof -
  have r1: "urlResolver (answering (JStr [])) ''x-y'' = Inr (JStr [])"
    and r2: "urlResolver (answering JUndefined) ''x-y'' = Inr JUndefined"
    by (simp_all add: answering_def)
  have p: "parseURL testPlatform [] = Inl (JsError TypeError ''Invalid URL'' None)"
    by (simp add: testPlatform_def)
  have c: "loaderCalls (snd (load testLoader testPlatform ''z-element''))
       = [''http://localhost/z-element.js'']"
    by (simp add: test_loads)
  have l: "loader testLoader ''http://localhost/z-element.js''
       = Rejects (JsError Thrown ''not found'' None)"
    by (simp add: testLoader_def)
  have n: "elementName xy = ''x-y''" by (simp add: xy_def)
  note a = load_failures [of "answering (JStr [])" testPlatform xy "''x-y''" "[]"
      "JsError TypeError ''Invalid URL'' None" JUndefined "[]" "[]"]
  note b = load_failures [of "answering JUndefined" testPlatform xy "''x-y''" "[]"
      "invalidUrl ''x-y''" JUndefined "[]" "''x-y''"]
  note d = load_failures [of testLoader testPlatform xy "''z-element''" "[]"
      "JsError Thrown ''not found'' None" JUndefined "''http://localhost/z-element.js''" "[]"]
  from a r1 p have s1: "load (answering (JStr [])) testPlatform ''x-y''
       = (Rejected (unparsableUrl [] ''x-y'' (JsError TypeError ''Invalid URL'' None)),
          [ResolverCalled ''x-y''])"
    by blast
  from b r2 have s2: "load (answering JUndefined) testPlatform ''x-y''
       = (Rejected (invalidUrl ''x-y''), [ResolverCalled ''x-y''])"
    by blast
  from d c l have s3: "fst (load testLoader testPlatform ''z-element'')
       = Rejected (loadingFailed ''z-element'' ''http://localhost/z-element.js''
           (JsError Thrown ''not found'' None))"
    by blast
  from s2 n have "fst (load (answering JUndefined) testPlatform (elementName xy))
      = Rejected (invalidUrl ''x-y'')" by simp
  with b have s4: "pipelineRuns (define' (answering JUndefined) testPlatform xy)
       = [(xy, \<lparr> warned = [], defined = [],
                 outcome = Rejected (catchCallback xy (invalidUrl ''x-y'')) \<rparr>)]"
    by blast
  from b have s5: "carries (invalidUrl ''x-y'') ''x-y''" by blast
  from b n have s6: "carries (catchCallback xy (invalidUrl ''x-y'')) ''x-y''" by metis
  from r1 p s1 r2 s2 c l s3 s4 s5 s6 show ?thesis by blast
qed

text \<open>
  C6 as stated fails: when the resolver answers 42, the error surfaced names the element
  and nothing else; it is the same error for any other answer that is neither a string
  nor a URL.
\<close>

theorem invalid_url_carries_no_url_counterexample:
  "pipelineRuns (define' (answering (JNum 42)) testPlatform xy)
     = [(xy, \<lparr> warned = [], defined = [],
               outcome = Rejected (catchCallback xy (invalidUrl ''x-y'')) \<rparr>)]
   \<and> pipelineRuns (define' (answering (JObject 1)) testPlatform xy)
     = pipelineRuns (define' (answering (JNum 42)) testPlatform xy)
   \<and> messages (catchCallback xy (invalidUrl ''x-y''))
     = [''Error defining element '' @ quote ''x-y'' @ ''.'',
        ''Configured CustomElementUrlResolver did not provide an valid URL for ''
          @ quote ''x-y'' @ ''.'']
   \<and> \<not> carries (catchCallback xy (invalidUrl ''x-y'')) ''42''"
proof -
  have l: "fst (load (answering v) testPlatform (elementName xy)) = Rejected (invalidUrl ''x-y'')"
    if "\<forall>s. v \<noteq> JStr s" "\<forall>u. v \<noteq> JUrl u" for v
    using load_mistyped [of "answering v" "''x-y''" v testPlatform] that
    by (simp add: answering_def xy_def)
  have run: "pipelineRuns (define' (answering v) testPlatform xy)
     = [(xy, \<lparr> warned = [], defined = [],
               outcome = Rejected (catchCallback xy (invalidUrl ''x-y'')) \<rparr>)]"
    if "\<forall>s. v \<noteq> JStr s" "\<forall>u. v \<noteq> JUrl u" for v
    by (rule define_rejected) (rule l [OF that])
  have m: "messages (catchCallback xy (invalidUrl ''x-y''))
     = [''Error defining element '' @ quote ''x-y'' @ ''.'',
        ''Configured CustomElementUrlResolver did not provide an valid URL for ''
          @ quote ''x-y'' @ ''.'']"
    by (simp add: catchCallback_def invalidUrl_def xy_def)
  have none: "\<not> carries (catchCallback xy (invalidUrl ''x-y'')) ''42''"
    by code_simp
  from run [of "JNum 42"] run [of "JObject 1"] m none show ?thesis by simp
qed

section \<open>Constructor options\<close>

lemma filterOption_fails:
  "(\<exists>e. filterOption v d = Inl e) \<longleftrightarrow> optTruthy v \<and> \<not> isFunction v \<and> \<not> isArray v"
  by (cases v) (simp_all add: filterOption_def)

lemma urlResolverOption_fails:
  "(\<exists>e. urlResolverOption v d = Inl e) \<longleftrightarrow> optTruthy v \<and> \<not> isFunction v \<and> \<not> isMap v"
  by (cases v) (simp_all add: urlResolverOption_def)

lemma loaderOption_fails:
  "(\<exists>e. loaderOption v d = Inl e) \<longleftrightarrow> optTruthy v \<and> \<not> isFunction v"
  by (cases v) (simp_all add: loaderOption_def)

lemma filterOption_error: "filterOption v d = Inl e \<Longrightarrow> kind e = TypeError"
  by (cases v) (auto simp: filterOption_def split: if_splits)

lemma urlResolverOption_error: "urlResolverOption v d = Inl e \<Longrightarrow> kind e = TypeError"
  by (cases v) (auto simp: urlResolverOption_def split: if_splits)

lemma loaderOption_error: "loaderOption v d = Inl e \<Longrightarrow> kind e = TypeError"
  by (cases v) (auto simp: loaderOption_def split: if_splits)

lemma resolveConstructorOptions_fails:
  "(\<exists>e. resolveConstructorOptions (Some given) d = Inl e)
     \<longleftrightarrow> badFilter given \<or> badUrlResolver given \<or> badLoader given"
proof -
  have "(\<exists>e. resolveConstructorOptions (Some given) d = Inl e)
      \<longleftrightarrow> (\<exists>e. filterOption (filterInit given) d = Inl e)
        \<or> (\<exists>e. urlResolverOption (urlResolverInit given) d = Inl e)
        \<or> (\<exists>e. loaderOption (loaderInit given) d = Inl e)"
    by (auto simp: resolveConstructorOptions_def split: sum.splits)
  then show ?thesis
    by (simp only: filterOption_fails urlResolverOption_fails loaderOption_fails
        badFilter_def badUrlResolver_def badLoader_def)
qed

lemma resolveConstructorOptions_kind:
  "resolveConstructorOptions options d = Inl e \<Longrightarrow> kind e = TypeError"
  by (auto simp: resolveConstructorOptions_def split: option.splits sum.splits
      dest: filterOption_error urlResolverOption_error loaderOption_error)

lemma resolveConstructorOptions_made:
  assumes "resolveConstructorOptions (Some given) d = Inr made"
  shows "filterOption (filterInit given) d = Inr (filter' made)"
    and "urlResolverOption (urlResolverInit given) d = Inr (urlResolver made)"
    and "loaderOption (loaderInit given) d = Inr (loader made)"
  using assms by (auto simp: resolveConstructorOptions_def split: sum.splits)

text \<open>
  C8, as amended. The constructor returns a TypeError, and no instance, exactly when the
  options hold a truthy filter that is neither a function nor an array, a truthy
  urlResolver that is neither a function nor a Map, or a truthy loader that is not a
  function. A member that is falsy is replaced by its default. A filter given as an array
  becomes the membership test of the array; a urlResolver given as a Map becomes the
  lookup in it, which returns undefined for a name that is not a key.
\<close>

theorem construction_options:
  "((\<exists>e. newCustomElementsLazyLoader pf (Some given) = Inl e)
      \<longleftrightarrow> badFilter given \<or> badUrlResolver given \<or> badLoader given)
   \<and> (newCustomElementsLazyLoader pf options = Inl e \<longrightarrow> kind e = TypeError)
   \<and> newCustomElementsLazyLoader pf None
       = Inr \<lparr> filter' = None, urlResolver = resolveUrlDefault pf, loader = loadDefault pf \<rparr>
   \<and> (newCustomElementsLazyLoader pf (Some given) = Inr made \<longrightarrow>
        (\<not> optTruthy (filterInit given) \<longrightarrow> filter' made = None)
        \<and> (filterInit given = OptFunction f \<longrightarrow> filter' made = Some f)
        \<and> (filterInit given = OptArray names \<longrightarrow>
             (\<exists>p. filter' made = Some p \<and> (\<forall>name. p name = JBool (name \<in> set names))))
        \<and> (\<not> optTruthy (urlResolverInit given) \<longrightarrow> urlResolver made = resolveUrlDefault pf)
        \<and> (urlResolverInit given = OptFunction r \<longrightarrow> urlResolver made = r)
        \<and> (urlResolverInit given = OptMap entries \<longrightarrow>
             (\<forall>name. urlResolver made name
                = Inr (case map_of entries (JStr name) of Some v \<Rightarrow> v | None \<Rightarrow> JUndefined)))
        \<and> (\<not> optTruthy (loaderInit given) \<longrightarrow> loader made = loadDefault pf)
        \<and> (loaderInit given = OptFunction l \<longrightarrow> loader made = l))"
proof (intro conjI impI)
  show "(\<exists>e. newCustomElementsLazyLoader pf (Some given) = Inl e)
      \<longleftrightarrow> badFilter given \<or> badUrlResolver given \<or> badLoader given"
    unfolding newCustomElementsLazyLoader_def by (rule resolveConstructorOptions_fails)
  show "kind e = TypeError" if "newCustomElementsLazyLoader pf options = Inl e"
    using that unfolding newCustomElementsLazyLoader_def
    by (rule resolveConstructorOptions_kind)
  show "newCustomElementsLazyLoader pf None
       = Inr \<lparr> filter' = None, urlResolver = resolveUrlDefault pf, loader = loadDefault pf \<rparr>"
    by (simp add: newCustomElementsLazyLoader_def resolveConstructorOptions_def)
next
  assume made: "newCustomElementsLazyLoader pf (Some given) = Inr made"
  note parts = resolveConstructorOptions_made [OF made [unfolded newCustomElementsLazyLoader_def]]
  show "filter' made = None" if "\<not> optTruthy (filterInit given)"
    using parts(1) that by (simp add: filterOption_def)
  show "filter' made = Some f" if "filterInit given = OptFunction f"
    using parts(1) that by (simp add: filterOption_def)
  show "\<exists>p. filter' made = Some p \<and> (\<forall>name. p name = JBool (name \<in> set names))"
    if "filterInit given = OptArray names"
  proof -
    from parts(1) that have "filter' made = Some (\<lambda>name. JBool (name \<in> set names))"
      by (simp add: filterOption_def)
    then show ?thesis by simp
  qed
  show "urlResolver made = resolveUrlDefault pf" if "\<not> optTruthy (urlResolverInit given)"
    using parts(2) that by (simp add: urlResolverOption_def)
  show "urlResolver made = r" if "urlResolverInit given = OptFunction r"
    using parts(2) that by (simp add: urlResolverOption_def)
  show "\<forall>name. urlResolver made name
      = Inr (case map_of entries (JStr name) of Some v \<Rightarrow> v | None \<Rightarrow> JUndefined)"
    if "urlResolverInit given = OptMap entries"
  proof -
    from parts(2) that have "urlResolver made
        = (\<lambda>name. case map_of entries (JStr name) of
                     Some v \<Rightarrow> Inr v | None \<Rightarrow> Inr JUndefined)"
      by (simp add: urlResolverOption_def)
    then show ?thesis by (simp split: option.splits)
  qed
  show "loader made = loadDefault pf" if "\<not> optTruthy (loaderInit given)"
    using parts(3) that by (simp add: loaderOption_def)
  show "loader made = l" if "loaderInit given = OptFunction l"
    using parts(3) that by (simp add: loaderOption_def)
qed

theorem construction_options_witness:
  "badFilter \<lparr> filterInit = OptStr ''invalid'', urlResolverInit = OptUndefined,
                loaderInit = OptUndefined \<rparr>
   \<and> (\<exists>e. newCustomElementsLazyLoader testPlatform
          (Some \<lparr> filterInit = OptStr ''invalid'', urlResolverInit = OptUndefined,
                  loaderInit = OptUndefined \<rparr>) = Inl e \<and> kind e = TypeError)
   \<and> filterInit testInit = OptArray [JStr ''x-element'']
   \<and> urlResolverInit testInit = OptMap [(JStr ''x-element'', JStr ''/js/x-element-element.js'')]
   \<and> \<not> optTruthy (loaderInit testInit)
   \<and> (\<exists>made p. newCustomElementsLazyLoader testPlatform (Some testInit) = Inr made
        \<and> filter' made = Some p
        \<and> p (JStr ''x-element'') = JBool True \<and> p (JStr ''y-element'') = JBool False
        \<and> urlResolver made ''x-element'' = Inr (JStr ''/js/x-element-element.js'')
        \<and> urlResolver made ''y-element'' = Inr JUndefined
        \<and> loader made = loadDefault testPlatform)"
proof -
  let ?bad = "\<lparr> filterInit = OptStr ''invalid'', urlResolverInit = OptUndefined,
                loaderInit = OptUndefined \<rparr>"
  have bad: "badFilter ?bad" by (simp add: badFilter_def)
  note b = construction_options [of testPlatform ?bad]
  from b bad obtain e where e: "newCustomElementsLazyLoader testPlatform (Some ?bad) = Inl e"
    by blast
  from construction_options [of testPlatform ?bad "Some ?bad" e] e
  have k: "kind e = TypeError" by blast
  have shape: "filterInit testInit = OptArray [JStr ''x-element'']"
    "urlResolverInit testInit = OptMap [(JStr ''x-element'', JStr ''/js/x-element-element.js'')]"
    "\<not> optTruthy (loaderInit testInit)"
    by (simp_all add: testInit_def)
  have good: "\<not> (badFilter testInit \<or> badUrlResolver testInit \<or> badLoader testInit)"
    by (simp add: badFilter_def badUrlResolver_def badLoader_def testInit_def)
  with construction_options [of testPlatform testInit]
  have "\<not> (\<exists>e. newCustomElementsLazyLoader testPlatform (Some testInit) = Inl e)" by blast
  then obtain made where made: "newCustomElementsLazyLoader testPlatform (Some testInit) = Inr made"
    by (cases "newCustomElementsLazyLoader testPlatform (Some testInit)") auto
  note g = construction_options [of testPlatform testInit "Some testInit" e made _
      "[JStr ''x-element'']" _ "[(JStr ''x-element'', JStr ''/js/x-element-element.js'')]" _]
  from g made shape obtain p where p: "filter' made = Some p"
    "\<forall>name. p name = JBool (name \<in> set [JStr ''x-element''])"
    by blast
  from g made shape have u: "\<forall>name. urlResolver made name
      = Inr (case map_of [(JStr ''x-element'', JStr ''/js/x-element-element.js'')] (JStr name) of
               Some v \<Rightarrow> v | None \<Rightarrow> JUndefined)"
    and l: "loader made = loadDefault testPlatform"
    by blast+
  have "p (JStr ''x-element'') = JBool True" "p (JStr ''y-element'') = JBool False"
    "urlResolver made ''x-element'' = Inr (JStr ''/js/x-element-element.js'')"
    "urlResolver made ''y-element'' = Inr JUndefined"
    using p(2) u by simp_all
  with bad e k shape made p(1) l show ?thesis by blast
qed

text \<open>
  C8 as stated fails: with a filter 0, a urlResolver \<open>""\<close> and a loader false, none of
  which is a function, an array or a Map, the constructor returns the instance with the
  defaults.
\<close>

theorem falsy_options_counterexample:
  "\<not> isFunction (filterInit falsyInit) \<and> \<not> isArray (filterInit falsyInit)
   \<and> \<not> isFunction (urlResolverInit falsyInit) \<and> \<not> isMap (urlResolverInit falsyInit)
   \<and> \<not> isFunction (loaderInit falsyInit)
   \<and> filterInit falsyInit = OptNum 0 \<and> urlResolverInit falsyInit = OptStr []
   \<and> loaderInit falsyInit = OptBool False
   \<and> newCustomElementsLazyLoader testPlatform (Some falsyInit)
       = Inr \<lparr> filter' = None, urlResolver = resolveUrlDefault testPlatform,
               loader = loadDefault testPlatform \<rparr>"
  by (simp add: falsyInit_def newCustomElementsLazyLoader_def resolveConstructorOptions_def
      filterOption_def urlResolverOption_def loaderOption_def)

end
